theory Spec2Isabelle
  imports Complex_Main "HOL-Library.Word"
begin

section \<open>JavaScript strings\<close>

text \<open>
  A JavaScript string is a sequence of 16-bit UTF-16 code units. String literals of the
  source are ASCII; \<open>js\<close> embeds an ASCII literal.
\<close>

type_synonym jsstring = "16 word list"

definition js :: "string \<Rightarrow> jsstring" where
  "js cs = map (\<lambda>c. of_nat (of_char c :: nat)) cs"

text \<open>
  \<open>String.prototype.toLowerCase\<close> and \<open>toUpperCase\<close> map a string code point by code
  point, with the full (locale-independent) Unicode case mapping. The mapping of one code
  unit is modelled exactly wherever an ASCII character is involved: the ASCII letters, and
  the code units outside ASCII whose mapping holds an ASCII character (lower case: the
  Kelvin sign \<open>U+212A\<close> and \<open>U+0130\<close>; upper case: \<open>U+00DF\<close>, \<open>U+0131\<close>,
  \<open>U+0149\<close>, \<open>U+017F\<close>, \<open>U+01F0\<close>, \<open>U+1E96\<close> to \<open>U+1E9A\<close> and the ligatures
  \<open>U+FB00\<close> to \<open>U+FB06\<close>). Every other code unit is left as it is: where Unicode
  maps it, it maps it to code units outside ASCII that are neither white space nor word
  characters, as it is itself, so that no comparison with an ASCII token, no \<open>trim\<close>
  and no match of \<open>\w\<close> or \<open>[0-9]\<close> can tell the two apart.
\<close>

definition lowerUnit :: "16 word \<Rightarrow> jsstring" where
  "lowerUnit c =
     (if 0x41 \<le> c \<and> c \<le> 0x5A then [c + 0x20]
      else if c = 0x0130 then [0x69, 0x0307]
      else if c = 0x212A then [0x6B]
      else [c])"

definition toLowerCase :: "jsstring \<Rightarrow> jsstring" where
  "toLowerCase s = concat (map lowerUnit s)"

definition upperUnit :: "16 word \<Rightarrow> jsstring" where
  "upperUnit c =
     (if 0x61 \<le> c \<and> c \<le> 0x7A then [c - 0x20]
      else if c = 0x00DF then [0x53, 0x53]
      else if c = 0x0131 then [0x49]
      else if c = 0x0149 then [0x02BC, 0x4E]
      else if c = 0x017F then [0x53]
      else if c = 0x01F0 then [0x4A, 0x030C]
      else if c = 0x1E96 then [0x48, 0x0331]
      else if c = 0x1E97 then [0x54, 0x0308]
      else if c = 0x1E98 then [0x57, 0x030A]
      else if c = 0x1E99 then [0x59, 0x030A]
      else if c = 0x1E9A then [0x41, 0x02BE]
      else if c = 0xFB00 then [0x46, 0x46]
      else if c = 0xFB01 then [0x46, 0x49]
      else if c = 0xFB02 then [0x46, 0x4C]
      else if c = 0xFB03 then [0x46, 0x46, 0x49]
      else if c = 0xFB04 then [0x46, 0x46, 0x4C]
      else if c = 0xFB05 then [0x53, 0x54]
      else if c = 0xFB06 then [0x53, 0x54]
      else [c])"

definition toUpperCase :: "jsstring \<Rightarrow> jsstring" where
  "toUpperCase s = concat (map upperUnit s)"

text \<open>
  The characters \<open>trim\<close> strips and the regular expression class \<open>\s\<close> matches:
  ECMAScript WhiteSpace and LineTerminator.
\<close>

definition isLineTerminator :: "16 word \<Rightarrow> bool" where
  "isLineTerminator c = (c = 0x0A \<or> c = 0x0D \<or> c = 0x2028 \<or> c = 0x2029)"

definition isWhiteSpace :: "16 word \<Rightarrow> bool" where
  "isWhiteSpace c =
     (c = 0x09 \<or> c = 0x0B \<or> c = 0x0C \<or> c = 0x20 \<or> c = 0xA0 \<or> c = 0x1680
      \<or> (0x2000 \<le> c \<and> c \<le> 0x200A) \<or> c = 0x202F \<or> c = 0x205F \<or> c = 0x3000
      \<or> c = 0xFEFF \<or> isLineTerminator c)"

definition trim :: "jsstring \<Rightarrow> jsstring" where
  "trim s = rev (dropWhile isWhiteSpace (rev (dropWhile isWhiteSpace s)))"

text \<open>The regular expression classes \<open>[0-9]\<close> and \<open>\w\<close> (no \<open>u\<close> or \<open>i\<close> flag).\<close>

definition isDigit :: "16 word \<Rightarrow> bool" where
  "isDigit c = (0x30 \<le> c \<and> c \<le> 0x39)"

definition isWordChar :: "16 word \<Rightarrow> bool" where
  "isWordChar c =
     (isDigit c \<or> (0x41 \<le> c \<and> c \<le> 0x5A) \<or> c = 0x5F \<or> (0x61 \<le> c \<and> c \<le> 0x7A))"

text \<open>
  \<open>s.match(/\w+/)\<close>: \<open>null\<close> (\<open>None\<close>) when \<open>s\<close> has no word character, otherwise
  the match array, whose only element is the leftmost, longest run of word characters
  (the expression has no capture group).
\<close>

definition matchWord :: "jsstring \<Rightarrow> jsstring list option" where
  "matchWord s =
     (let r = dropWhile (\<lambda>c. \<not> isWordChar c) s
      in if r = [] then None else Some [takeWhile isWordChar r])"

text \<open>
  \<open>s.match(/^[-+]?[0-9]+/)\<close>: an optional sign and at least one digit at the start
  of \<open>s\<close>; \<open>/^[-+]?[0-9]+/.test(s)\<close> is whether it is not \<open>null\<close>.
\<close>

definition matchPrefix :: "jsstring \<Rightarrow> jsstring list option" where
  "matchPrefix s =
     (let sign = (case s of [] \<Rightarrow> [] | c # cs \<Rightarrow> if c = 0x2D \<or> c = 0x2B then [c] else []);
          digits = takeWhile isDigit (drop (length sign) s)
      in if digits = [] then None else Some [sign @ digits])"

definition testPrefix :: "jsstring \<Rightarrow> bool" where
  "testPrefix s = (matchPrefix s \<noteq> None)"

text \<open>
  \<open>parseInt\<close> on a text of the form \<open>[-+]?[0-9]+\<close>, the only form the source
  applies it to: the signed decimal value. (JavaScript numbers are doubles: the value is
  exact below \<open>2^53\<close>.)
\<close>

definition digitsValue :: "jsstring \<Rightarrow> int" where
  "digitsValue ds = foldl (\<lambda>a c. 10 * a + (uint c - 48)) 0 ds"

definition parseInt :: "jsstring \<Rightarrow> int" where
  "parseInt s =
     (case s of
        [] \<Rightarrow> 0
      | c # cs \<Rightarrow>
          if c = 0x2D then - digitsValue (takeWhile isDigit cs)
          else if c = 0x2B then digitsValue (takeWhile isDigit cs)
          else digitsValue (takeWhile isDigit s))"

section \<open>Errors\<close>

text \<open>
  The exceptions of the program as values. \<open>CouldNotConvertError\<close> and
  \<open>UserVisibleError\<close> carry their \<open>message\<close>; the messages of the engine's own
  \<open>TypeError\<close> and \<open>SyntaxError\<close> are not modelled. \<open>LibraryError\<close> is an
  \<open>Error\<close> thrown by the recurrence library with its message, \<open>ValidationError\<close>
  the library's refusal of an out-of-range value.
\<close>

datatype error =
    CouldNotConvertError jsstring
  | TypeError
  | SyntaxError
  | UserVisibleError jsstring
  | LibraryError jsstring
  | ValidationError

text \<open>
  \<open>new CouldNotConvertError\<close>: the constructor passes its (here: no) arguments to
  \<open>Error\<close>, so the message is the empty string.
\<close>

definition new_CouldNotConvertError :: error where
  "new_CouldNotConvertError = CouldNotConvertError []"


section \<open>Weekdays, months and frequencies: \<open>rrule_converter.ts\<close>\<close>

datatype day = MO | TU | WE | TH | FR | SA | SU

text \<open>
  The library's \<open>Weekday\<close>: a base day and an optional occurrence modifier \<open>n\<close>.
  The constants \<open>RRule.MO\<close> .. \<open>RRule.SU\<close> have no modifier.
\<close>

datatype Weekday = Weekday (weekday_of: day) (n_of: "int option")

definition RRule_day :: "day \<Rightarrow> Weekday" where
  "RRule_day d = Weekday d None"

text \<open>
  Modelled from the spec: \<open>Weekday.nth\<close> of the recurrence library, which is not part of
  the sources. The spec gives a weekday a base day plus a signed occurrence modifier, which
  must be non-zero or construction fails.
\<close>

definition nth_weekday :: "Weekday \<Rightarrow> int \<Rightarrow> error + Weekday" where
  "nth_weekday w k =
     (if k = 0 then Inl ValidationError
      else Inr (Weekday (weekday_of w) (Some k)))"

datatype Frequency = YEARLY | MONTHLY | WEEKLY | DAILY | HOURLY | MINUTELY | SECONDLY

definition convertUserWeekdayStringToRRuleConstant :: "jsstring \<Rightarrow> error + Weekday" where
  "convertUserWeekdayStringToRRuleConstant weekday =
     (let w = trim (toLowerCase weekday) in
      if w = js ''1'' \<or> w = js ''monday'' \<or> w = js ''mo'' then Inr (RRule_day MO)
      else if w = js ''2'' \<or> w = js ''tuesday'' \<or> w = js ''tu'' then Inr (RRule_day TU)
      else if w = js ''3'' \<or> w = js ''wednesday'' \<or> w = js ''we'' then Inr (RRule_day WE)
      else if w = js ''4'' \<or> w = js ''thursday'' \<or> w = js ''th'' then Inr (RRule_day TH)
      else if w = js ''5'' \<or> w = js ''friday'' \<or> w = js ''fr'' then Inr (RRule_day FR)
      else if w = js ''6'' \<or> w = js ''saturday'' \<or> w = js ''sa'' then Inr (RRule_day SA)
      else if w = js ''7'' \<or> w = js ''sunday'' \<or> w = js ''su'' then Inr (RRule_day SU)
      else Inl new_CouldNotConvertError)"

definition convertUserMonthStringToRRuleConstant :: "jsstring \<Rightarrow> error + nat" where
  "convertUserMonthStringToRRuleConstant month =
     (let m = trim (toLowerCase month) in
      if m = js ''1'' \<or> m = js ''january'' \<or> m = js ''jan'' then Inr 1
      else if m = js ''2'' \<or> m = js ''february'' \<or> m = js ''feb'' then Inr 2
      else if m = js ''3'' \<or> m = js ''march'' \<or> m = js ''ma'' then Inr 3
      else if m = js ''4'' \<or> m = js ''april'' \<or> m = js ''apr'' then Inr 4
      else if m = js ''5'' \<or> m = js ''may'' then Inr 5
      else if m = js ''6'' \<or> m = js ''june'' \<or> m = js ''jun'' then Inr 6
      else if m = js ''7'' \<or> m = js ''july'' \<or> m = js ''jul'' then Inr 7
      else if m = js ''8'' \<or> m = js ''august'' \<or> m = js ''aug'' then Inr 8
      else if m = js ''9'' \<or> m = js ''september'' \<or> m = js ''sep'' then Inr 9
      else if m = js ''10'' \<or> m = js ''october'' \<or> m = js ''oct'' then Inr 10
      else if m = js ''11'' \<or> m = js ''november'' \<or> m = js ''nov'' then Inr 11
      else if m = js ''12'' \<or> m = js ''december'' \<or> m = js ''dec'' then Inr 12
      else Inl new_CouldNotConvertError)"

text \<open>The object literal \<open>frequencyStringToRRuleConstants\<close>, in the order it is written.\<close>

definition frequencyStringToRRuleConstants :: "(jsstring \<times> Frequency) list" where
  "frequencyStringToRRuleConstants =
     [(js ''YEARLY'', YEARLY), (js ''MONTHLY'', MONTHLY), (js ''WEEKLY'', WEEKLY),
      (js ''DAILY'', DAILY), (js ''HOURLY'', HOURLY), (js ''MINUTELY'', MINUTELY),
      (js ''SECONDLY'', SECONDLY)]"

definition convertFrequencyStringToRRuleConstant :: "jsstring \<Rightarrow> error + Frequency" where
  "convertFrequencyStringToRRuleConstant frequency =
     (let f = toUpperCase (trim frequency) in
      case map_of frequencyStringToRRuleConstants f of
        Some c \<Rightarrow> Inr c
      | None \<Rightarrow> Inl new_CouldNotConvertError)"

text \<open>
  \<open>convertUserByWeekdayToRRuleConstant\<close>. Reading \<open>length\<close> of the \<open>null\<close> that
  \<open>match\<close> returns is a \<open>TypeError\<close>; a match array always has length 1.
\<close>

definition convertUserByWeekdayToRRuleConstant :: "jsstring \<Rightarrow> error + Weekday" where
  "convertUserByWeekdayToRRuleConstant byWeekday0 =
     (let byWeekday = trim (toLowerCase byWeekday0) in
      case matchWord byWeekday of
        None \<Rightarrow> Inl TypeError
      | Some byWeekdayWordMatch \<Rightarrow>
          if length byWeekdayWordMatch \<noteq> 1 then Inl new_CouldNotConvertError
          else
            let weekday = hd byWeekdayWordMatch in
            if testPrefix byWeekday then
              (case matchPrefix byWeekday of
                 None \<Rightarrow> Inl TypeError
               | Some m \<Rightarrow>
                   let k = parseInt (hd m) in
                   (case convertUserWeekdayStringToRRuleConstant weekday of
                      Inl e \<Rightarrow> Inl e
                    | Inr w \<Rightarrow> nth_weekday w k))
            else convertUserWeekdayStringToRRuleConstant weekday)"

section \<open>Control-code escaping: \<open>utils/string.helpers.ts\<close>\<close>

subsection \<open>\<open>JSON.stringify\<close> of an object with the one string property \<open>s\<close>\<close>

definition hexDigit :: "nat \<Rightarrow> 16 word" where
  "hexDigit d = (if d < 10 then 0x30 + of_nat d else 0x61 + of_nat (d - 10))"

text \<open>\<open>UnicodeEscape\<close>: backslash, \<open>u\<close> and four lower-case hexadecimal digits.\<close>

definition unicodeEscape :: "16 word \<Rightarrow> jsstring" where
  "unicodeEscape c =
     [0x5C, 0x75, hexDigit (unat c div 4096 mod 16), hexDigit (unat c div 256 mod 16),
      hexDigit (unat c div 16 mod 16), hexDigit (unat c mod 16)]"

definition isLeadingSurrogate :: "16 word \<Rightarrow> bool" where
  "isLeadingSurrogate c = (0xD800 \<le> c \<and> c \<le> 0xDBFF)"

definition isTrailingSurrogate :: "16 word \<Rightarrow> bool" where
  "isTrailingSurrogate c = (0xDC00 \<le> c \<and> c \<le> 0xDFFF)"

text \<open>
  \<open>QuoteJSONString\<close>, for one code point that is a single code unit: backspace, tab,
  line feed, form feed, carriage return, the double quote and the backslash have
  two-character escapes; other code units below \<open>0x20\<close> and surrogates on their own are
  escaped as \<open>\uXXXX\<close>; everything else (the line separators \<open>U+2028\<close> and
  \<open>U+2029\<close> included) is copied.
\<close>

definition quoteUnit :: "16 word \<Rightarrow> jsstring" where
  "quoteUnit c =
     (if c = 0x08 then [0x5C, 0x62]
      else if c = 0x09 then [0x5C, 0x74]
      else if c = 0x0A then [0x5C, 0x6E]
      else if c = 0x0C then [0x5C, 0x66]
      else if c = 0x0D then [0x5C, 0x72]
      else if c = 0x22 then [0x5C, 0x22]
      else if c = 0x5C then [0x5C, 0x5C]
      else if c < 0x20 \<or> isLeadingSurrogate c \<or> isTrailingSurrogate c then unicodeEscape c
      else [c])"

text \<open>
  \<open>QuoteJSONString\<close> without the enclosing quotes. The string is read by code points: a
  leading surrogate followed by a trailing one is a pair, which is copied; every other
  code unit is a code point of its own.
\<close>

fun quoteJSONChars :: "jsstring \<Rightarrow> jsstring" where
  "quoteJSONChars [] = []"
| "quoteJSONChars [c] = quoteUnit c"
| "quoteJSONChars (c # d # ds) =
     (if isLeadingSurrogate c \<and> isTrailingSurrogate d then c # d # quoteJSONChars ds
      else quoteUnit c @ quoteJSONChars (d # ds))"

text \<open>
  \<open>JSON.stringify({s})\<close>: the text \<open>{"s":"\<dots>"}\<close>. Here \<open>0x7B\<close> is the opening
  brace, \<open>0x22\<close> the double quote, \<open>0x73\<close> the letter s, \<open>0x3A\<close> the colon and
  \<open>0x7D\<close> the closing brace.
\<close>

definition JSON_stringify_s :: "jsstring \<Rightarrow> jsstring" where
  "JSON_stringify_s s = [0x7B, 0x22, 0x73, 0x22, 0x3A, 0x22] @ quoteJSONChars s @ [0x22, 0x7D]"

subsection \<open>The regular expression of \<open>escapeControlCodes\<close>\<close>

text \<open>
  \<open>t.match(/^{"s":\s*"(?<s>.*)"}$/)\<close>, as the group \<open>s\<close> of the match or \<open>None\<close>
  for \<open>null\<close>. The text has to start with \<open>{"s":\<close>; \<open>\s*\<close> takes all the white
  space that follows, since the next character has to be a double quote; the rest has to
  end with \<open>"}\<close> at the end of the input, and what lies between is the group, which
  \<open>.\<close> (no \<open>s\<close> flag) matches only if it holds no line terminator.
\<close>

definition matchEscaped :: "jsstring \<Rightarrow> jsstring option" where
  "matchEscaped t =
     (if take 5 t = [0x7B, 0x22, 0x73, 0x22, 0x3A] then
        (case dropWhile isWhiteSpace (drop 5 t) of
           [] \<Rightarrow> None
         | q # r \<Rightarrow>
             if q = 0x22 \<and> 2 \<le> length r \<and> drop (length r - 2) r = [0x22, 0x7D]
                \<and> \<not> list_ex isLineTerminator (take (length r - 2) r)
             then Some (take (length r - 2) r)
             else None)
      else None)"

text \<open>\<open>escapeControlCodes\<close>: reading \<open>groups\<close> of a \<open>null\<close> match is a \<open>TypeError\<close>.\<close>

definition escapeControlCodes :: "jsstring \<Rightarrow> error + jsstring" where
  "escapeControlCodes s =
     (case matchEscaped (JSON_stringify_s s) of
        None \<Rightarrow> Inl TypeError
      | Some g \<Rightarrow> Inr g)"

subsection \<open>\<open>JSON.parse\<close>\<close>

text \<open>
  JavaScript values as far as \<open>JSON.parse\<close> and a property access on its result produce
  them. A number is kept as its literal text: its floating-point value is not computed.
  An object is the list of its members in the order of the text.
\<close>

datatype jsvalue =
    Undefined
  | Null
  | Bool bool
  | Number jsstring
  | String jsstring
  | Array "jsvalue list"
  | Object "(jsstring \<times> jsvalue) list"

datatype 'a presult = Parsed 'a jsstring | Invalid | OutOfFuel

definition isJSONWhiteSpace :: "16 word \<Rightarrow> bool" where
  "isJSONWhiteSpace c = (c = 0x20 \<or> c = 0x09 \<or> c = 0x0A \<or> c = 0x0D)"

definition skipWs :: "jsstring \<Rightarrow> jsstring" where
  "skipWs s = dropWhile isJSONWhiteSpace s"

definition hexValue :: "16 word \<Rightarrow> nat option" where
  "hexValue c =
     (if 0x30 \<le> c \<and> c \<le> 0x39 then Some (unat c - 0x30)
      else if 0x41 \<le> c \<and> c \<le> 0x46 then Some (unat c - 0x41 + 10)
      else if 0x61 \<le> c \<and> c \<le> 0x66 then Some (unat c - 0x61 + 10)
      else None)"

text \<open>The character after a backslash, other than \<open>u\<close>, and what it stands for.\<close>

definition simpleEscape :: "16 word \<Rightarrow> 16 word option" where
  "simpleEscape e =
     (if e = 0x22 then Some 0x22
      else if e = 0x5C then Some 0x5C
      else if e = 0x2F then Some 0x2F
      else if e = 0x62 then Some 0x08
      else if e = 0x66 then Some 0x0C
      else if e = 0x6E then Some 0x0A
      else if e = 0x72 then Some 0x0D
      else if e = 0x74 then Some 0x09
      else None)"

definition consChar :: "16 word \<Rightarrow> (jsstring \<times> jsstring) option \<Rightarrow> (jsstring \<times> jsstring) option" where
  "consChar c r = map_option (\<lambda>(str, rest). (c # str, rest)) r"

text \<open>
  A JSON string after its opening quote: the string it denotes and the text after its
  closing quote; \<open>None\<close> where the text is no JSON string (a raw control character, an
  unknown escape, no closing quote).
\<close>

fun parseStringChars :: "jsstring \<Rightarrow> (jsstring \<times> jsstring) option" where
  "parseStringChars [] = None"
| "parseStringChars (c # cs) =
     (if c = 0x22 then Some ([], cs)
      else if c = 0x5C then
        (case cs of
           [] \<Rightarrow> None
         | e # es \<Rightarrow>
             if e = 0x75 then
               (case es of
                  h1 # h2 # h3 # h4 # rest \<Rightarrow>
                    (case (hexValue h1, hexValue h2, hexValue h3, hexValue h4) of
                       (Some a, Some b, Some c', Some d) \<Rightarrow>
                         consChar (of_nat (4096 * a + 256 * b + 16 * c' + d)) (parseStringChars rest)
                     | _ \<Rightarrow> None)
                | _ \<Rightarrow> None)
             else
               (case simpleEscape e of
                  None \<Rightarrow> None
                | Some u \<Rightarrow> consChar u (parseStringChars es)))
      else if c < 0x20 then None
      else consChar c (parseStringChars cs))"

text \<open>
  A JSON number at the start of the text: an optional minus, an integer part without
  leading zeros, an optional fraction, an optional exponent. Each part is given as the
  characters it takes from the start of what is left (none, if it is not there).
\<close>

definition minusSign :: "jsstring \<Rightarrow> jsstring" where
  "minusSign s = (case s of [] \<Rightarrow> [] | c # cs \<Rightarrow> if c = 0x2D then [c] else [])"

definition intPart :: "jsstring \<Rightarrow> jsstring" where
  "intPart s =
     (case s of
        [] \<Rightarrow> []
      | d # ds \<Rightarrow>
          if \<not> isDigit d then []
          else if d = 0x30 then [d]
          else d # takeWhile isDigit ds)"

definition fracPart :: "jsstring \<Rightarrow> jsstring" where
  "fracPart s =
     (case s of
        p # q # r \<Rightarrow> if p = 0x2E \<and> isDigit q then p # takeWhile isDigit (q # r) else []
      | _ \<Rightarrow> [])"

definition expPart :: "jsstring \<Rightarrow> jsstring" where
  "expPart s =
     (case s of
        [] \<Rightarrow> []
      | e # r \<Rightarrow>
          if e = 0x65 \<or> e = 0x45 then
            (let sg = (case r of
                         [] \<Rightarrow> []
                       | g # r' \<Rightarrow> if g = 0x2B \<or> g = 0x2D then [g] else []);
                 dg = takeWhile isDigit (drop (length sg) r)
             in if dg = [] then [] else e # sg @ dg)
          else [])"

text \<open>The literal of the number and the rest of the text; \<open>None\<close> if there is no number.\<close>

definition parseNumber :: "jsstring \<Rightarrow> (jsstring \<times> jsstring) option" where
  "parseNumber s =
     (let sgn = minusSign s;
          s1 = drop (length sgn) s;
          ip = intPart s1
      in if ip = [] then None
         else
           let s2 = drop (length ip) s1;
               fr = fracPart s2;
               s3 = drop (length fr) s2;
               ex = expPart s3
           in Some (sgn @ ip @ fr @ ex, drop (length ex) s3))"

text \<open>
  The JSON value at the start of the text (after white space), the members of an object
  after its opening brace and the elements of an array after its opening bracket. The
  parser is recursive in the nesting of the text; the first argument bounds the depth of
  the calls. A call for a value or for members consumes at least one character before it
  calls on, a call for elements starts with a call for a value on the same text, so that
  one more than twice the length of the text is enough (\<open>parse_fuel\<close> below).
\<close>

fun parseValue :: "nat \<Rightarrow> jsstring \<Rightarrow> jsvalue presult"
  and parseMembers :: "nat \<Rightarrow> jsstring \<Rightarrow> ((jsstring \<times> jsvalue) list) presult"
  and parseElements :: "nat \<Rightarrow> jsstring \<Rightarrow> (jsvalue list) presult" where
  "parseValue 0 s = OutOfFuel"
| "parseValue (Suc k) s =
     (case skipWs s of
        [] \<Rightarrow> Invalid
      | c # cs \<Rightarrow>
          if c = 0x7B then
            (case skipWs cs of
               [] \<Rightarrow> Invalid
             | d # ds \<Rightarrow>
                 if d = 0x7D then Parsed (Object []) ds
                 else
                   (case parseMembers k (d # ds) of
                      Parsed ms r \<Rightarrow> Parsed (Object ms) r
                    | Invalid \<Rightarrow> Invalid
                    | OutOfFuel \<Rightarrow> OutOfFuel))
          else if c = 0x5B then
            (case skipWs cs of
               [] \<Rightarrow> Invalid
             | d # ds \<Rightarrow>
                 if d = 0x5D then Parsed (Array []) ds
                 else
                   (case parseElements k (d # ds) of
                      Parsed vs r \<Rightarrow> Parsed (Array vs) r
                    | Invalid \<Rightarrow> Invalid
                    | OutOfFuel \<Rightarrow> OutOfFuel))
          else if c = 0x22 then
            (case parseStringChars cs of
               None \<Rightarrow> Invalid
             | Some (str, r) \<Rightarrow> Parsed (String str) r)
          else if take 4 (c # cs) = js ''true'' then Parsed (Bool True) (drop 4 (c # cs))
          else if take 5 (c # cs) = js ''false'' then Parsed (Bool False) (drop 5 (c # cs))
          else if take 4 (c # cs) = js ''null'' then Parsed Null (drop 4 (c # cs))
          else
            (case parseNumber (c # cs) of
               None \<Rightarrow> Invalid
             | Some (lit, r) \<Rightarrow> Parsed (Number lit) r))"
| "parseMembers 0 s = OutOfFuel"
| "parseMembers (Suc k) s =
     (case skipWs s of
        [] \<Rightarrow> Invalid
      | c # cs \<Rightarrow>
          if c \<noteq> 0x22 then Invalid
          else
            (case parseStringChars cs of
               None \<Rightarrow> Invalid
             | Some (key, r) \<Rightarrow>
                 (case skipWs r of
                    [] \<Rightarrow> Invalid
                  | c2 # r2 \<Rightarrow>
                      if c2 \<noteq> 0x3A then Invalid
                      else
                        (case parseValue k r2 of
                           Invalid \<Rightarrow> Invalid
                         | OutOfFuel \<Rightarrow> OutOfFuel
                         | Parsed v r3 \<Rightarrow>
                             (case skipWs r3 of
                                [] \<Rightarrow> Invalid
                              | c4 # r4 \<Rightarrow>
                                  if c4 = 0x7D then Parsed [(key, v)] r4
                                  else if c4 = 0x2C then
                                    (case parseMembers k r4 of
                                       Parsed ms r5 \<Rightarrow> Parsed ((key, v) # ms) r5
                                     | Invalid \<Rightarrow> Invalid
                                     | OutOfFuel \<Rightarrow> OutOfFuel)
                                  else Invalid)))))"
| "parseElements 0 s = OutOfFuel"
| "parseElements (Suc k) s =
     (case parseValue k s of
        Invalid \<Rightarrow> Invalid
      | OutOfFuel \<Rightarrow> OutOfFuel
      | Parsed v r \<Rightarrow>
          (case skipWs r of
             [] \<Rightarrow> Invalid
           | c # r2 \<Rightarrow>
               if c = 0x5D then Parsed [v] r2
               else if c = 0x2C then
                 (case parseElements k r2 of
                    Parsed vs r3 \<Rightarrow> Parsed (v # vs) r3
                  | Invalid \<Rightarrow> Invalid
                  | OutOfFuel \<Rightarrow> OutOfFuel)
               else Invalid))"

text \<open>
  \<open>JSON.parse\<close>: one value, white space around it, and nothing else; a
  \<open>SyntaxError\<close> otherwise. With the bound given here the parser never runs out of
  calls (\<open>JSON_parse_fuel\<close> below).
\<close>

definition JSON_parse :: "jsstring \<Rightarrow> error + jsvalue" where
  "JSON_parse t =
     (case parseValue (Suc (length t + length t)) t of
        Parsed v r \<Rightarrow> if skipWs r = [] then Inr v else Inl SyntaxError
      | Invalid \<Rightarrow> Inl SyntaxError
      | OutOfFuel \<Rightarrow> Inl SyntaxError)"

text \<open>
  The property \<open>s\<close> of a value: of an object, the value of its last member of that name
  (a later member of the same name replaces an earlier one), \<open>undefined\<close> if there is
  none; the other values \<open>JSON.parse\<close> returns have no such property, and reading a
  property of \<open>null\<close> is a \<open>TypeError\<close>.
\<close>

definition get_s :: "jsvalue \<Rightarrow> error + jsvalue" where
  "get_s v =
     (case v of
        Object ms \<Rightarrow> (case map_of (rev ms) [0x73] of Some x \<Rightarrow> Inr x | None \<Rightarrow> Inr Undefined)
      | Null \<Rightarrow> Inl TypeError
      | Undefined \<Rightarrow> Inl TypeError
      | _ \<Rightarrow> Inr Undefined)"

text \<open>
  \<open>unescapeControlCodes\<close>: the template literal puts \<open>s\<close> between \<open>{"s": "\<close> and
  \<open>"}\<close> (\<open>0x20\<close> is the space after the colon).
\<close>

definition unescapeControlCodes :: "jsstring \<Rightarrow> error + jsvalue" where
  "unescapeControlCodes s =
     (case JSON_parse ([0x7B, 0x22, 0x73, 0x22, 0x3A, 0x20, 0x22] @ s @ [0x22, 0x7D]) of
        Inl e \<Rightarrow> Inl e
      | Inr v \<Rightarrow> get_s v)"

section \<open>Objects: \<open>utils/object.helpers.ts\<close>\<close>

text \<open>
  Objects are modelled as far as their own enumerable data properties with string keys
  go (accessors, symbols, proxies and inherited properties are not modelled). The
  properties of an object are a list of keys and values, in their order; the value
  \<open>undefined\<close> of a property is \<open>None\<close>. Besides its properties an object has the
  keys of those of its properties that are not configurable: all of them in a frozen or
  sealed object, none in an object written as a literal.

  Objects live in a store and are passed by reference: a reference is an index into the
  store, and a reference outside the store stands for an argument that is no object
  (\<open>null\<close>, \<open>undefined\<close>).
\<close>

type_synonym ('k, 'v) obj = "('k \<times> 'v option) list"

record ('k, 'v) object =
  props :: "('k, 'v) obj"
  nonconfigurable :: "'k list"

type_synonym ('k, 'v) heap = "('k, 'v) object list"
type_synonym ref = nat

text \<open>A new object, as an object literal or a spread makes it: every property configurable.\<close>

definition alloc :: "('k, 'v) heap \<Rightarrow> ('k, 'v) obj \<Rightarrow> ('k, 'v) heap \<times> ref" where
  "alloc h ob = (h @ [\<lparr>props = ob, nonconfigurable = []\<rparr>], length h)"

definition Object_keys :: "('k, 'v) obj \<Rightarrow> 'k list" where
  "Object_keys ob = map fst ob"

text \<open>\<open>ob[key]\<close>: \<open>undefined\<close> also when the object has no such property.\<close>

definition get_prop :: "('k, 'v) obj \<Rightarrow> 'k \<Rightarrow> 'v option" where
  "get_prop ob key = (case map_of ob key of None \<Rightarrow> None | Some v \<Rightarrow> v)"

definition remove_prop :: "('k, 'v) obj \<Rightarrow> 'k \<Rightarrow> ('k, 'v) obj" where
  "remove_prop ob key = filter (\<lambda>kv. fst kv \<noteq> key) ob"

text \<open>
  \<open>delete ob[key]\<close>. A property that is not configurable is not removed: in strict mode
  code the \<open>delete\<close> throws a \<open>TypeError\<close>, otherwise it leaves the object as it is.
  The source is a module, and module code is strict mode code; as a bundler may change
  that, the mode is a parameter (\<open>True\<close> for strict).
\<close>

definition delete_prop ::
    "bool \<Rightarrow> ('k, 'v) object \<Rightarrow> 'k \<Rightarrow> error + ('k, 'v) object" where
  "delete_prop strict ob key =
     (if key \<in> set (Object_keys (props ob)) \<and> key \<in> set (nonconfigurable ob)
      then (if strict then Inl TypeError else Inr ob)
      else Inr (ob\<lparr>props := remove_prop (props ob) key\<rparr>))"

text \<open>
  The loop of \<open>deleteUndefinedProps\<close> over the keys: a key whose value has type
  \<open>'undefined'\<close> is deleted from the object in place, at its reference. The result is
  the store as the loop leaves it and the exception that ended the loop, if one did.
\<close>

fun deleteLoop ::
    "bool \<Rightarrow> ('k, 'v) heap \<Rightarrow> ref \<Rightarrow> 'k list \<Rightarrow> ('k, 'v) heap \<times> error option" where
  "deleteLoop strict h r [] = (h, None)"
| "deleteLoop strict h r (key # keys) =
     (if get_prop (props (h ! r)) key = None then
        (case delete_prop strict (h ! r) key of
           Inl e \<Rightarrow> (h, Some e)
         | Inr ob \<Rightarrow> deleteLoop strict (h[r := ob]) r keys)
      else deleteLoop strict h r keys)"

text \<open>
  \<open>deleteUndefinedProps\<close>: \<open>Object.keys\<close> is taken once, before the loop; the
  reference that was passed is returned. \<open>Object.keys\<close> of \<open>null\<close> or \<open>undefined\<close>
  is a \<open>TypeError\<close>. The store is returned also when the function throws.
\<close>

definition deleteUndefinedProps ::
    "bool \<Rightarrow> ('k, 'v) heap \<Rightarrow> ref \<Rightarrow> ('k, 'v) heap \<times> (error + ref)" where
  "deleteUndefinedProps strict h r =
     (if r < length h then
        (case deleteLoop strict h r (Object_keys (props (h ! r))) of
           (h', None) \<Rightarrow> (h', Inr r)
         | (h', Some e) \<Rightarrow> (h', Inl e))
      else (h, Inl TypeError))"

text \<open>
  What the callback of the loop makes of the properties of an object when the
  \<open>delete\<close> goes through.
\<close>

definition deleteIfUndefined :: "('k, 'v) obj \<Rightarrow> 'k \<Rightarrow> ('k, 'v) obj" where
  "deleteIfUndefined ob key = (if get_prop ob key = None then remove_prop ob key else ob)"

text \<open>
  Setting a property keeps its place if the object has it and appends it otherwise. The
  object spread \<open>{...a, ...b}\<close> copies the properties of \<open>a\<close>, then those of \<open>b\<close>,
  to a new object: for each key of the source, in order, its value is read and set on the
  target.
\<close>

fun set_prop :: "('k, 'v) obj \<Rightarrow> 'k \<Rightarrow> 'v option \<Rightarrow> ('k, 'v) obj" where
  "set_prop [] key v = [(key, v)]"
| "set_prop ((k, x) # ob) key v = (if k = key then (k, v) # ob else (k, x) # set_prop ob key v)"

definition copyDataProperties :: "('k, 'v) obj \<Rightarrow> ('k, 'v) obj \<Rightarrow> ('k, 'v) obj" where
  "copyDataProperties target src =
     foldl (\<lambda>acc key. set_prop acc key (get_prop src key)) target (Object_keys src)"

definition spread :: "('k, 'v) obj \<Rightarrow> ('k, 'v) obj \<Rightarrow> ('k, 'v) obj" where
  "spread a b = copyDataProperties (copyDataProperties [] a) b"

section \<open>The recurrence engine the formulas call\<close>

text \<open>
  A date is its time value, the milliseconds since the epoch. A JavaScript number is a
  real number, an infinity or \<open>NaN\<close> (rounding to a double is not modelled).
\<close>

type_synonym date = int

datatype number = NaN | NegInfinity | Finite real | PosInfinity

fun number_less :: "number \<Rightarrow> number \<Rightarrow> bool" where
  "number_less (Finite a) (Finite b) = (a < b)"
| "number_less (Finite a) PosInfinity = True"
| "number_less NegInfinity (Finite b) = True"
| "number_less NegInfinity PosInfinity = True"
| "number_less _ _ = False"

definition Math_min :: "number \<Rightarrow> number \<Rightarrow> number" where
  "Math_min a b = (if a = NaN \<or> b = NaN then NaN else if number_less b a then b else a)"

text \<open>The values of the options of a rule.\<close>

datatype optval =
    VFrequency Frequency
  | VDate date
  | VNumber number
  | VString jsstring
  | VWeekday Weekday
  | VNumbers "number list"
  | VMonths "nat list"
  | VWeekdays "Weekday list"

text \<open>
  Modelled from the spec: the recurrence engine (the library that provides \<open>RRule\<close> and
  \<open>rrulestr\<close>) is not part of the sources. Of a parsed rule the formulas use the options
  it was written with (\<open>origOptions\<close>) and its occurrences; the spec has a rule determine
  an ascending sequence of occurrence instants, and that sequence stands here for the
  generator that computes it.
\<close>

record rule =
  origOptions :: "(string, optval) obj"
  occurrences :: "date list"

text \<open>
  Modelled from the spec: a query takes a stop predicate that is given each produced
  occurrence and its 0-based index; the occurrence is yielded if the predicate returns
  true, and generation halts at once if it returns false.
\<close>

fun collect :: "(date \<Rightarrow> nat \<Rightarrow> bool) \<Rightarrow> date list \<Rightarrow> date list \<Rightarrow> date list" where
  "collect it [] acc = acc"
| "collect it (d # ds) acc = (if it d (length acc) then collect it ds (acc @ [d]) else acc)"

text \<open>Modelled from the spec: \<open>all()\<close> without a predicate is the full sequence.\<close>

definition rule_all :: "rule \<Rightarrow> date list" where
  "rule_all r = occurrences r"

definition rule_all_it :: "rule \<Rightarrow> (date \<Rightarrow> nat \<Rightarrow> bool) \<Rightarrow> date list" where
  "rule_all_it r it = collect it (occurrences r) []"

text \<open>
  Modelled from the spec: \<open>between(after, before, inclusive, stopPredicate)\<close> is the
  ascending subsequence with \<open>after \<le> t \<le> before\<close> if inclusive, else
  \<open>after < t < before\<close>, subject to the predicate.
\<close>

definition inRange :: "bool \<Rightarrow> date \<Rightarrow> date \<Rightarrow> date \<Rightarrow> bool" where
  "inRange inc a b t = (if inc then a \<le> t \<and> t \<le> b else a < t \<and> t < b)"

definition rule_between ::
    "rule \<Rightarrow> date \<Rightarrow> date \<Rightarrow> bool \<Rightarrow> (date \<Rightarrow> nat \<Rightarrow> bool) \<Rightarrow> date list" where
  "rule_between r a b inc it = collect it (filter (inRange inc a b) (occurrences r)) []"

text \<open>
  Modelled from the spec: \<open>after(date, inclusive)\<close> is the minimum occurrence with
  \<open>t > date\<close> (\<open>t \<ge> date\<close> if inclusive), \<open>before(date, inclusive)\<close> the maximum
  occurrence with \<open>t < date\<close> (\<open>t \<le> date\<close> if inclusive), or none (\<open>null\<close>).
\<close>

definition rule_after :: "rule \<Rightarrow> date \<Rightarrow> bool \<Rightarrow> date option" where
  "rule_after r d inc =
     (let c = filter (\<lambda>t. if inc then d \<le> t else d < t) (occurrences r)
      in if c = [] then None else Some (Min (set c)))"

definition rule_before :: "rule \<Rightarrow> date \<Rightarrow> bool \<Rightarrow> date option" where
  "rule_before r d inc =
     (let c = filter (\<lambda>t. if inc then t \<le> d else t < d) (occurrences r)
      in if c = [] then None else Some (Max (set c)))"

section \<open>The formulas: \<open>pack.ts\<close>\<close>

definition MAX_CONSUMED_RECURRENCES :: nat where
  "MAX_CONSUMED_RECURRENCES = 1000"

definition BLANK :: jsstring where
  "BLANK = []"

subsection \<open>Building the options: \<open>CreateRRule\<close> and \<open>ModifyRRule\<close>\<close>

text \<open>The optional parameters the two formulas share; \<open>None\<close> is \<open>undefined\<close>.\<close>

record params =
  dtstart :: "date option"
  interval :: "number option"
  wkst :: "jsstring option"
  count :: "number option"
  until :: "date option"
  timezone :: "jsstring option"
  bysetpos :: "number list option"
  bymonth :: "jsstring list option"
  bymonthday :: "number list option"
  byyearday :: "number list option"
  byweekno :: "number list option"
  byweekday :: "jsstring list option"
  byhour :: "number list option"
  byminute :: "number list option"
  bysecond :: "number list option"

text \<open>\<open>xs.map(f)\<close> where \<open>f\<close> may throw: the first exception ends the loop.\<close>

fun mapE :: "('a \<Rightarrow> error + 'b) \<Rightarrow> 'a list \<Rightarrow> error + 'b list" where
  "mapE f [] = Inr []"
| "mapE f (x # xs) =
     (case f x of
        Inl e \<Rightarrow> Inl e
      | Inr y \<Rightarrow> (case mapE f xs of Inl e \<Rightarrow> Inl e | Inr ys \<Rightarrow> Inr (y # ys)))"

text \<open>\<open>x !== undefined ? f(x) : undefined\<close>\<close>

definition convertOptional :: "('a \<Rightarrow> error + 'b) \<Rightarrow> 'a option \<Rightarrow> error + 'b option" where
  "convertOptional f x =
     (case x of
        None \<Rightarrow> Inr None
      | Some a \<Rightarrow> (case f a of Inl e \<Rightarrow> Inl e | Inr b \<Rightarrow> Inr (Some b)))"

text \<open>The object literal of the two formulas, once its converted values are there.\<close>

definition optionsObject ::
    "Frequency option \<Rightarrow> Weekday option \<Rightarrow> nat list option \<Rightarrow> Weekday list option \<Rightarrow> params
     \<Rightarrow> (string, optval) obj" where
  "optionsObject f w ms wds p =
     [(''freq'', map_option VFrequency f),
      (''dtstart'', map_option VDate (dtstart p)),
      (''interval'', map_option VNumber (interval p)),
      (''wkst'', map_option VWeekday w),
      (''count'', map_option VNumber (count p)),
      (''until'', map_option VDate (until p)),
      (''tzid'', map_option VString (timezone p)),
      (''bysetpos'', map_option VNumbers (bysetpos p)),
      (''bymonth'', map_option VMonths ms),
      (''bymonthday'', map_option VNumbers (bymonthday p)),
      (''byyearday'', map_option VNumbers (byyearday p)),
      (''byweekno'', map_option VNumbers (byweekno p)),
      (''byweekday'', map_option VWeekdays wds),
      (''byhour'', map_option VNumbers (byhour p)),
      (''byminute'', map_option VNumbers (byminute p)),
      (''bysecond'', map_option VNumbers (bysecond p))]"

text \<open>
  The literal is evaluated property by property, so the conversions run in the order
  \<open>freq\<close>, \<open>wkst\<close>, \<open>bymonth\<close>, \<open>byweekday\<close>, and the first that throws ends the
  evaluation.
\<close>

definition optionsLiteral ::
    "error + Frequency option \<Rightarrow> params \<Rightarrow> error + (string, optval) obj" where
  "optionsLiteral freq p =
     (case freq of
        Inl e \<Rightarrow> Inl e
      | Inr f \<Rightarrow>
     (case convertOptional convertUserWeekdayStringToRRuleConstant (wkst p) of
        Inl e \<Rightarrow> Inl e
      | Inr w \<Rightarrow>
     (case convertOptional (mapE convertUserMonthStringToRRuleConstant) (bymonth p) of
        Inl e \<Rightarrow> Inl e
      | Inr ms \<Rightarrow>
     (case convertOptional (mapE convertUserByWeekdayToRRuleConstant) (byweekday p) of
        Inl e \<Rightarrow> Inl e
      | Inr wds \<Rightarrow> Inr (optionsObject f w ms wds p)))))"

text \<open>
  The \<open>catch\<close> clause around the literal: a \<open>CouldNotConvertError\<close> becomes a
  \<open>UserVisibleError\<close> with the same message, anything else is thrown again.
\<close>

definition rethrow :: "error \<Rightarrow> error" where
  "rethrow e = (case e of CouldNotConvertError m \<Rightarrow> UserVisibleError m | _ \<Rightarrow> e)"


text \<open>
  \<open>ModifyRRule\<close> up to the options it builds the new rule from. The parameter
  \<open>rrulestr\<close> stands for the library's parser, which returns a rule or throws an
  \<open>Error\<close> with a message. The result is the store, the reference of the options
  parsed from the rule string and the reference of the merged options.
\<close>

definition modifyOptions ::
    "bool \<Rightarrow> (jsvalue \<Rightarrow> jsstring + rule) \<Rightarrow> (string, optval) heap \<Rightarrow> jsstring
     \<Rightarrow> jsstring option \<Rightarrow> params \<Rightarrow> error + ((string, optval) heap \<times> ref \<times> ref)" where
  "modifyOptions strict rrulestr h rrule frequency p =
     (case unescapeControlCodes rrule of
        Inl e \<Rightarrow> Inl e
      | Inr unescapedRRule \<Rightarrow>
     (case rrulestr unescapedRRule of
        Inl msg \<Rightarrow> Inl (UserVisibleError msg)
      | Inr parsed \<Rightarrow>
     (let (h1, options) = alloc h (origOptions parsed) in
      case optionsLiteral
             (convertOptional convertFrequencyStringToRRuleConstant frequency) p of
        Inl e \<Rightarrow> Inl (rethrow e)
      | Inr lit \<Rightarrow>
     (let (h2, l) = alloc h1 lit in
      case deleteUndefinedProps strict h2 l of
        (h3, Inl e) \<Rightarrow> Inl (rethrow e)
      | (h3, Inr newOptions) \<Rightarrow>
     (let (h4, merged) = alloc h3 (spread (props (h3 ! options)) (props (h3 ! newOptions)))
      in Inr (h4, options, merged))))))"

text \<open>
  \<open>ModifyRRule\<close>: the new rule is built from the merged options and its string is
  escaped.
\<close>

definition ModifyRRule ::
    "bool \<Rightarrow> (jsvalue \<Rightarrow> jsstring + rule) \<Rightarrow> ((string, optval) obj \<Rightarrow> error + jsstring)
     \<Rightarrow> jsstring \<Rightarrow> jsstring option \<Rightarrow> params \<Rightarrow> error + jsstring" where
  "ModifyRRule strict rrulestr render rrule frequency p =
     (case modifyOptions strict rrulestr [] rrule frequency p of
        Inl e \<Rightarrow> Inl e
      | Inr (h, options, merged) \<Rightarrow>
          (case render (props (h ! merged)) of
             Inl e \<Rightarrow> Inl e
           | Inr str \<Rightarrow> escapeControlCodes str))"

subsection \<open>The occurrence queries\<close>

definition limitingIterator :: "number \<Rightarrow> date \<Rightarrow> nat \<Rightarrow> bool" where
  "limitingIterator limit d i = number_less (Finite (real i)) limit"

text \<open>
  The first lines every query formula shares: unescape the rule string (outside the
  \<open>try\<close>), parse it, and report a parse error as a \<open>UserVisibleError\<close>.
\<close>

definition parseRule :: "(jsvalue \<Rightarrow> jsstring + rule) \<Rightarrow> jsstring \<Rightarrow> error + rule" where
  "parseRule rrulestr rrule =
     (case unescapeControlCodes rrule of
        Inl e \<Rightarrow> Inl e
      | Inr unescapedRRule \<Rightarrow>
          (case rrulestr unescapedRRule of
             Inl msg \<Rightarrow> Inl (UserVisibleError msg)
           | Inr r \<Rightarrow> Inr r))"

text \<open>
  \<open>All\<close> and \<open>Between\<close>; \<open>limit\<close> defaults to 100 and \<open>include\<close> to false. The
  parameter \<open>toISOString\<close> stands for \<open>Date.prototype.toISOString\<close>.
\<close>

definition All ::
    "(jsvalue \<Rightarrow> jsstring + rule) \<Rightarrow> (date \<Rightarrow> jsstring) \<Rightarrow> jsstring \<Rightarrow> number option
     \<Rightarrow> error + jsstring list" where
  "All rrulestr toISOString rrule limit0 =
     (let limit = Math_min (case limit0 of None \<Rightarrow> Finite 100 | Some x \<Rightarrow> x)
                           (Finite (real MAX_CONSUMED_RECURRENCES))
      in case parseRule rrulestr rrule of
           Inl e \<Rightarrow> Inl e
         | Inr r \<Rightarrow> Inr (map toISOString (rule_all_it r (limitingIterator limit))))"

definition Between ::
    "(jsvalue \<Rightarrow> jsstring + rule) \<Rightarrow> (date \<Rightarrow> jsstring) \<Rightarrow> jsstring \<Rightarrow> date \<Rightarrow> date
     \<Rightarrow> number option \<Rightarrow> bool option \<Rightarrow> error + jsstring list" where
  "Between rrulestr toISOString rrule a b limit0 include0 =
     (let limit = Math_min (case limit0 of None \<Rightarrow> Finite 100 | Some x \<Rightarrow> x)
                           (Finite (real MAX_CONSUMED_RECURRENCES));
          inc = (case include0 of None \<Rightarrow> False | Some x \<Rightarrow> x)
      in case parseRule rrulestr rrule of
           Inl e \<Rightarrow> Inl e
         | Inr r \<Rightarrow>
             Inr (map toISOString (rule_between r a b inc (limitingIterator limit))))"

text \<open>
  \<open>First\<close> evaluates \<open>rule.all()\<close>, without a predicate, and takes the first element
  of the array if it has one. \<open>First_all\<close> is that array.
\<close>

definition First_all :: "(jsvalue \<Rightarrow> jsstring + rule) \<Rightarrow> jsstring \<Rightarrow> error + date list" where
  "First_all rrulestr rrule =
     (case parseRule rrulestr rrule of
        Inl e \<Rightarrow> Inl e
      | Inr r \<Rightarrow> Inr (rule_all r))"

definition First ::
    "(jsvalue \<Rightarrow> jsstring + rule) \<Rightarrow> (date \<Rightarrow> jsstring) \<Rightarrow> jsstring \<Rightarrow> error + jsstring" where
  "First rrulestr toISOString rrule =
     (case First_all rrulestr rrule of
        Inl e \<Rightarrow> Inl e
      | Inr ds \<Rightarrow>
          Inr (case ds of [] \<Rightarrow> BLANK | d # _ \<Rightarrow> toISOString d))"

definition After ::
    "(jsvalue \<Rightarrow> jsstring + rule) \<Rightarrow> (date \<Rightarrow> jsstring) \<Rightarrow> jsstring \<Rightarrow> date \<Rightarrow> bool option
     \<Rightarrow> error + jsstring" where
  "After rrulestr toISOString rrule d include0 =
     (let inc = (case include0 of None \<Rightarrow> False | Some x \<Rightarrow> x)
      in case parseRule rrulestr rrule of
           Inl e \<Rightarrow> Inl e
         | Inr r \<Rightarrow>
             Inr (case rule_after r d inc of None \<Rightarrow> BLANK | Some t \<Rightarrow> toISOString t))"

definition Before ::
    "(jsvalue \<Rightarrow> jsstring + rule) \<Rightarrow> (date \<Rightarrow> jsstring) \<Rightarrow> jsstring \<Rightarrow> date \<Rightarrow> bool option
     \<Rightarrow> error + jsstring" where
  "Before rrulestr toISOString rrule d include0 =
     (let inc = (case include0 of None \<Rightarrow> False | Some x \<Rightarrow> x)
      in case parseRule rrulestr rrule of
           Inl e \<Rightarrow> Inl e
         | Inr r \<Rightarrow>
             Inr (case rule_before r d inc of None \<Rightarrow> BLANK | Some t \<Rightarrow> toISOString t))"

section \<open>What the claims speak of\<close>


text \<open>The alphabetic tokens the plain weekday converter accepts.\<close>

definition weekdayWords :: "string list" where
  "weekdayWords = [''monday'', ''mo'', ''tuesday'', ''tu'', ''wednesday'', ''we'', ''thursday'', ''th'',
                   ''friday'', ''fr'', ''saturday'', ''sa'', ''sunday'', ''su'']"

text \<open>
  The forms of a month the specification names: the full English name, its first three
  letters and the number, for the months 1 to 12.
\<close>

definition monthTable :: "(string \<times> string) list" where
  "monthTable =
     [(''january'', ''1''), (''february'', ''2''), (''march'', ''3''), (''april'', ''4''),
      (''may'', ''5''), (''june'', ''6''), (''july'', ''7''), (''august'', ''8''),
      (''september'', ''9''), (''october'', ''10''), (''november'', ''11''),
      (''december'', ''12'')]"

definition monthForms :: "nat \<Rightarrow> string list" where
  "monthForms m =
     [fst (monthTable ! (m - 1)), take 3 (fst (monthTable ! (m - 1))), snd (monthTable ! (m - 1))]"

text \<open>Escaping a string and unescaping the result, as the formulas do between them.\<close>

definition unescapeEscaped :: "jsstring \<Rightarrow> error + jsvalue" where
  "unescapeEscaped s =
     (case escapeControlCodes s of
        Inl e \<Rightarrow> Inl e
      | Inr t \<Rightarrow> unescapeControlCodes t)"

section \<open>Evaluation\<close>

lemmas eval_defs =
  js_def lowerUnit_def toLowerCase_def upperUnit_def toUpperCase_def isLineTerminator_def isWhiteSpace_def trim_def
  isDigit_def isWordChar_def matchWord_def matchPrefix_def testPrefix_def digitsValue_def
  parseInt_def new_CouldNotConvertError_def RRule_day_def nth_weekday_def
  convertUserWeekdayStringToRRuleConstant_def convertUserMonthStringToRRuleConstant_def
  frequencyStringToRRuleConstants_def convertFrequencyStringToRRuleConstant_def
  convertUserByWeekdayToRRuleConstant_def
  hexDigit_def unicodeEscape_def isLeadingSurrogate_def isTrailingSurrogate_def quoteUnit_def
  JSON_stringify_s_def matchEscaped_def escapeControlCodes_def isJSONWhiteSpace_def skipWs_def
  hexValue_def simpleEscape_def consChar_def minusSign_def intPart_def fracPart_def expPart_def
  parseNumber_def JSON_parse_def get_s_def
  unescapeControlCodes_def unescapeEscaped_def

lemmas object_defs =
  alloc_def Object_keys_def get_prop_def remove_prop_def delete_prop_def deleteIfUndefined_def
  deleteUndefinedProps_def copyDataProperties_def spread_def

section \<open>The converters\<close>

text \<open>
  Trimming and lower-casing: a token between two runs of white space, in any mix of upper
  and lower case, is read as the token.
\<close>

lemma toLowerCase_append: "toLowerCase (xs @ ys) = toLowerCase xs @ toLowerCase ys"
  by (simp add: toLowerCase_def)

lemma lowerUnit_whitespace: "isWhiteSpace c \<Longrightarrow> lowerUnit c = [c]"
  by (auto simp: lowerUnit_def isWhiteSpace_def isLineTerminator_def word_le_nat_alt)

lemma toLowerCase_whitespace: "list_all isWhiteSpace a \<Longrightarrow> toLowerCase a = a"
  by (induction a) (simp_all add: toLowerCase_def lowerUnit_whitespace)

lemma dropWhile_pad:
  "list_all P a \<Longrightarrow> t \<noteq> [] \<Longrightarrow> \<not> P (hd t) \<Longrightarrow> dropWhile P (a @ t @ b) = t @ b"
  by (induction a) (auto simp: neq_Nil_conv)

lemma trim_pad:
  assumes "list_all isWhiteSpace a" "list_all isWhiteSpace b" "t \<noteq> []"
    "\<not> isWhiteSpace (hd t)" "\<not> isWhiteSpace (last t)"
  shows "trim (a @ t @ b) = t"
proof -
  have 1: "dropWhile isWhiteSpace (a @ t @ b) = t @ b"
    using assms by (simp add: dropWhile_pad)
  have "dropWhile isWhiteSpace (rev b @ rev t @ []) = rev t @ []"
    using assms by (intro dropWhile_pad) (simp_all add: hd_rev)
  then show ?thesis by (simp add: trim_def 1)
qed

lemma lowered_padded:
  assumes "list_all isWhiteSpace a" "list_all isWhiteSpace b" "toLowerCase v = t" "t \<noteq> []"
    "\<not> isWhiteSpace (hd t)" "\<not> isWhiteSpace (last t)"
  shows "trim (toLowerCase (a @ v @ b)) = t"
  using assms by (simp add: toLowerCase_append toLowerCase_whitespace trim_pad)

lemma js_eq_iff: "js a = js b \<longleftrightarrow> a = b"
proof -
  have "inj (\<lambda>c. of_nat (of_char c :: nat) :: 16 word)"
  proof (rule injI)
    fix c d :: char
    assume "(of_nat (of_char c :: nat) :: 16 word) = of_nat (of_char d)"
    then have "unat (of_nat (of_char c :: nat) :: 16 word) = unat (of_nat (of_char d :: nat) :: 16 word)"
      by simp
    moreover have "(of_char x :: nat) < 65536" for x
    proof -
      have "(of_char x :: nat) mod 256 < 256" by (rule mod_less_divisor) simp
      then have "(of_char x :: nat) < 256" by (simp only: of_char_mod_256)
      then show ?thesis by (rule less_trans) simp
    qed
    ultimately have "(of_char c :: nat) = of_char d"
      by (simp add: unat_of_nat)
    then show "c = d" by simp
  qed
  then show ?thesis
    unfolding js_def by (rule inj_map_eq_map)
qed

text \<open>
  A sign, digits and a weekday word, in any case: the first run of word characters
  takes the digits along, and no token of the plain converter that starts with a digit
  is longer than the digit, so the converter rejects every such input.
\<close>

lemma digit_facts:
  "isDigit c \<Longrightarrow> isWordChar c \<and> \<not> isWhiteSpace c \<and> lowerUnit c = [c]"
  by (auto simp: isDigit_def isWordChar_def isWhiteSpace_def isLineTerminator_def lowerUnit_def
      word_le_nat_alt)

lemma toLowerCase_digits: "list_all isDigit ds \<Longrightarrow> toLowerCase ds = ds"
  by (induction ds) (simp_all add: toLowerCase_def digit_facts)

lemma weekday_word_shape:
  "w \<in> set weekdayWords \<Longrightarrow>
   list_all isWordChar (js w) \<and> js w \<noteq> [] \<and> \<not> isWhiteSpace (last (js w)) \<and> toLowerCase (js w) = js w"
  unfolding weekdayWords_def
  by (elim disjE conjE | simp add: js_def isWordChar_def isDigit_def isWhiteSpace_def isLineTerminator_def toLowerCase_def lowerUnit_def)+

lemma trim_id:
  "x \<noteq> [] \<Longrightarrow> \<not> isWhiteSpace (hd x) \<Longrightarrow> \<not> isWhiteSpace (last x) \<Longrightarrow> trim x = x"
  using trim_pad [of "[]" "[]" x] by simp

lemma digit_led_not_weekday:
  assumes "isDigit (hd x)" "2 \<le> length x" "trim (toLowerCase x) = x"
  shows "convertUserWeekdayStringToRRuleConstant x = Inl (CouldNotConvertError [])"
proof -
  have "x \<noteq> js t" if "t \<in> set [''1'', ''monday'', ''mo'', ''2'', ''tuesday'', ''tu'', ''3'', ''wednesday'',
      ''we'', ''4'', ''thursday'', ''th'', ''5'', ''friday'', ''fr'', ''6'', ''saturday'', ''sa'',
      ''7'', ''sunday'', ''su'']" for t
  proof
    assume "x = js t"
    with assms(1,2) have "isDigit (hd (js t))" "2 \<le> length (js t)" by simp_all
    with that show False
      by (elim disjE conjE | simp add: js_def isDigit_def)+
  qed
  then show ?thesis
    by (simp add: convertUserWeekdayStringToRRuleConstant_def assms(3) new_CouldNotConvertError_def)
qed

lemma byWeekday_prefixed_rejected:
  assumes sign: "sign = [] \<or> sign = [0x2D] \<or> sign = [0x2B]"
    and ds: "ds \<noteq> []" "list_all isDigit ds"
    and w: "w \<in> set weekdayWords" "toLowerCase v = js w"
  shows "convertUserByWeekdayToRRuleConstant (sign @ ds @ v) = Inl (CouldNotConvertError [])"
proof -
  let ?x = "ds @ js w"
  from weekday_word_shape [OF w(1)] have
    ww: "list_all isWordChar (js w)" and wne: "js w \<noteq> []" and
    wl: "\<not> isWhiteSpace (last (js w))" and wlow: "toLowerCase (js w) = js w"
    by simp_all
  from ds have hd_digit: "isDigit (hd ds)" by (cases ds) simp_all
  from ds(2) have ds_word: "list_all isWordChar ds"
    by (induction ds) (auto dest: digit_facts)
  have x_hd: "hd ?x = hd ds" using ds(1) by simp
  have x_last: "last ?x = last (js w)" using wne by simp
  have x_low: "toLowerCase ?x = ?x"
    by (simp add: toLowerCase_append toLowerCase_digits ds(2) wlow)
  have x_trim: "trim ?x = ?x"
    using ds(1) digit_facts [OF hd_digit] wl
    by (intro trim_id) (simp_all only: x_hd x_last, simp_all)
  have x_len: "2 \<le> length ?x"
    using ds(1) wne by (cases ds; cases "js w") simp_all
  have conv: "convertUserWeekdayStringToRRuleConstant ?x = Inl (CouldNotConvertError [])"
    by (rule digit_led_not_weekday) (simp_all only: x_hd hd_digit x_len x_low x_trim)
  have sign_low: "toLowerCase sign = sign"
    using sign by (auto simp: toLowerCase_def lowerUnit_def)
  have low: "toLowerCase (sign @ ds @ v) = sign @ ?x"
    by (simp add: toLowerCase_append sign_low toLowerCase_digits ds(2) w(2))
  have sx_hd: "\<not> isWhiteSpace (hd (sign @ ?x))"
    using sign ds(1) digit_facts [OF hd_digit]
    by (auto simp: isWhiteSpace_def isLineTerminator_def)
  have tr: "trim (sign @ ?x) = sign @ ?x"
    using sx_hd wl wne ds(1) by (intro trim_id) simp_all
  have "dropWhile (\<lambda>c. \<not> isWordChar c) (sign @ ?x) = ?x"
    using sign ds(1) digit_facts [OF hd_digit]
    by (cases ds) (auto simp: isWordChar_def isDigit_def)
  moreover have "takeWhile isWordChar ?x = ?x"
    using ds_word ww by (simp add: takeWhile_eq_all_conv list_all_iff)
  ultimately have mw: "matchWord (sign @ ?x) = Some [?x]"
    using ds(1) by (simp add: matchWord_def)
  show ?thesis
    by (auto simp: convertUserByWeekdayToRRuleConstant_def low tr mw conv testPrefix_def Let_def
        split: option.splits)
qed

text \<open>
  Claim C1. A weekday token with a signed integer prefix, such as \<open>-1FR\<close> or \<open>2TU\<close>,
  is to give the weekday with that occurrence modifier. The converter takes the first run
  of word characters as the weekday token, and digits are word characters: the token of
  \<open>-1FR\<close> is \<open>1fr\<close>, which is no weekday, so the prefixed forms the formula's
  description advertises (\<open>-1Friday\<close>, \<open>1Friday\<close>) are rejected, although the bare
  tokens are accepted. The same holds for every prefix and every weekday word
  (\<open>byWeekday_prefixed_rejected\<close> above).
\<close>

theorem byWeekday_prefixed_token_rejected:
  "convertUserByWeekdayToRRuleConstant (js ''-1FR'') = Inl (CouldNotConvertError [])
   \<and> convertUserByWeekdayToRRuleConstant (js ''2TU'') = Inl (CouldNotConvertError [])
   \<and> convertUserByWeekdayToRRuleConstant (js ''-1Friday'') = Inl (CouldNotConvertError [])
   \<and> convertUserByWeekdayToRRuleConstant (js ''1Friday'') = Inl (CouldNotConvertError [])
   \<and> convertUserWeekdayStringToRRuleConstant (js ''FR'') = Inr (RRule_day FR)
   \<and> convertUserWeekdayStringToRRuleConstant (js ''TU'') = Inr (RRule_day TU)
   \<and> convertUserWeekdayStringToRRuleConstant (js ''Friday'') = Inr (RRule_day FR)"
  by (simp add: eval_defs)

lemma month_token:
  "trim (toLowerCase s) = js f \<Longrightarrow>
   (f, m) \<in> set [(''1'', 1), (''january'', 1), (''jan'', 1), (''2'', 2), (''february'', 2), (''feb'', 2),
     (''3'', 3), (''march'', 3), (''4'', 4), (''april'', 4), (''apr'', 4), (''5'', 5), (''may'', 5),
     (''6'', 6), (''june'', 6), (''jun'', 6), (''7'', 7), (''july'', 7), (''jul'', 7),
     (''8'', 8), (''august'', 8), (''aug'', 8), (''9'', 9), (''september'', 9), (''sep'', 9),
     (''10'', 10), (''october'', 10), (''oct'', 10), (''11'', 11), (''november'', 11), (''nov'', 11),
     (''12'', 12), (''december'', 12), (''dec'', 12)] \<Longrightarrow>
   convertUserMonthStringToRRuleConstant s = Inr m"
  unfolding convertUserMonthStringToRRuleConstant_def Let_def
  by (elim disjE conjE | simp add: js_eq_iff)+

text \<open>
  Every form of a month the specification names is accepted, whatever its case and the
  white space around it, and gives the month's number, with the one exception of
  \<open>mar\<close>.
\<close>

lemma month_token_shape:
  "f \<in> set [''1'', ''january'', ''jan'', ''2'', ''february'', ''feb'', ''3'', ''march'', ''4'', ''april'',
     ''apr'', ''5'', ''may'', ''6'', ''june'', ''jun'', ''7'', ''july'', ''jul'', ''8'', ''august'', ''aug'',
     ''9'', ''september'', ''sep'', ''10'', ''october'', ''oct'', ''11'', ''november'', ''nov'',
     ''12'', ''december'', ''dec''] \<Longrightarrow>
   js f \<noteq> [] \<and> \<not> isWhiteSpace (hd (js f)) \<and> \<not> isWhiteSpace (last (js f))"
  by (elim disjE conjE | simp add: js_def isWhiteSpace_def isLineTerminator_def)+

lemma month_forms_accepted:
  assumes "1 \<le> m" "m \<le> 12" "f \<in> set (monthForms m)" "f \<noteq> ''mar''"
    "list_all isWhiteSpace a" "list_all isWhiteSpace b" "toLowerCase v = js f"
  shows "convertUserMonthStringToRRuleConstant (a @ v @ b) = Inr m"
proof -
  from assms(1,2) have "m = 1 \<or> m = 2 \<or> m = 3 \<or> m = 4 \<or> m = 5 \<or> m = 6 \<or> m = 7 \<or> m = 8
      \<or> m = 9 \<or> m = 10 \<or> m = 11 \<or> m = 12"
    by arith
  with assms(3,4) have mem:
    "(f, m) \<in> set [(''1'', 1), (''january'', 1), (''jan'', 1), (''2'', 2), (''february'', 2), (''feb'', 2),
     (''3'', 3), (''march'', 3), (''4'', 4), (''april'', 4), (''apr'', 4), (''5'', 5), (''may'', 5),
     (''6'', 6), (''june'', 6), (''jun'', 6), (''7'', 7), (''july'', 7), (''jul'', 7),
     (''8'', 8), (''august'', 8), (''aug'', 8), (''9'', 9), (''september'', 9), (''sep'', 9),
     (''10'', 10), (''october'', 10), (''oct'', 10), (''11'', 11), (''november'', 11), (''nov'', 11),
     (''12'', 12), (''december'', 12), (''dec'', 12)]"
    by (elim disjE) (auto simp: monthForms_def monthTable_def)
  then have "f \<in> set [''1'', ''january'', ''jan'', ''2'', ''february'', ''feb'', ''3'', ''march'', ''4'', ''april'',
     ''apr'', ''5'', ''may'', ''6'', ''june'', ''jun'', ''7'', ''july'', ''jul'', ''8'', ''august'', ''aug'',
     ''9'', ''september'', ''sep'', ''10'', ''october'', ''oct'', ''11'', ''november'', ''nov'',
     ''12'', ''december'', ''dec'']"
    by auto
  then have "js f \<noteq> [] \<and> \<not> isWhiteSpace (hd (js f)) \<and> \<not> isWhiteSpace (last (js f))"
    by (rule month_token_shape)
  with assms(5-7) have "trim (toLowerCase (a @ v @ b)) = js f"
    by (intro lowered_padded) simp_all
  from this mem show ?thesis by (rule month_token)
qed

text \<open>
  Claim C2. Every month is to be accepted by its full name, its three-letter abbreviation
  and its number. The abbreviation the converter accepts for March is \<open>ma\<close>, so \<open>Mar\<close>
  is rejected, while \<open>March\<close> and \<open>3\<close> give 3; \<open>Feb\<close>, \<open>2\<close> and \<open>February\<close> all
  give 2. All the other forms are accepted (\<open>month_forms_accepted\<close> above).
\<close>

theorem month_Mar_rejected:
  "convertUserMonthStringToRRuleConstant (js ''Mar'') = Inl (CouldNotConvertError [])
   \<and> convertUserMonthStringToRRuleConstant (js ''ma'') = Inr 3
   \<and> convertUserMonthStringToRRuleConstant (js ''March'') = Inr 3
   \<and> convertUserMonthStringToRRuleConstant (js ''3'') = Inr 3
   \<and> convertUserMonthStringToRRuleConstant (js ''Feb'') = Inr 2
   \<and> convertUserMonthStringToRRuleConstant (js ''2'') = Inr 2
   \<and> convertUserMonthStringToRRuleConstant (js ''February'') = Inr 2"
  by (simp add: eval_defs)

lemma conv_weekday_err:
  "convertUserWeekdayStringToRRuleConstant s = Inl e \<Longrightarrow> e = CouldNotConvertError []"
  by (simp add: convertUserWeekdayStringToRRuleConstant_def new_CouldNotConvertError_def Let_def
      split: if_splits)

lemma conv_month_err:
  "convertUserMonthStringToRRuleConstant s = Inl e \<Longrightarrow> e = CouldNotConvertError []"
  by (simp add: convertUserMonthStringToRRuleConstant_def new_CouldNotConvertError_def Let_def
      split: if_splits)

lemma conv_freq_err:
  "convertFrequencyStringToRRuleConstant s = Inl e \<Longrightarrow> e = CouldNotConvertError []"
  by (simp add: convertFrequencyStringToRRuleConstant_def new_CouldNotConvertError_def Let_def
      split: option.splits)

lemma mapE_rejects:
  assumes "\<And>x e. f x = Inl e \<Longrightarrow> e = c" and "s \<in> set xs" and "f s = Inl e"
  shows "mapE f xs = Inl c"
  using assms(2)
proof (induction xs)
  case Nil
  then show ?case by simp
next
  case (Cons x xs)
  show ?case
  proof (cases "f x")
    case (Inl e')
    with assms(1) have "e' = c" by blast
    with Inl show ?thesis by simp
  next
    case (Inr y)
    with Cons.prems assms(3) have "s \<in> set xs" by auto
    then have "mapE f xs = Inl c" by (rule Cons.IH)
    with Inr show ?thesis by simp
  qed
qed

text \<open>
  Whichever of the frequency, the \<open>wkst\<close> and the \<open>bymonth\<close> holds a rejected token,
  the evaluation of the literal ends in a \<open>CouldNotConvertError\<close> with the empty
  message: the conversions that run before can only fail in the same way.
\<close>

lemma literal_wkst_err:
  assumes "\<forall>e'. fr = Inl e' \<longrightarrow> e' = CouldNotConvertError []"
    and "wkst p = Some s" and "convertUserWeekdayStringToRRuleConstant s = Inl e"
  shows "optionsLiteral fr p = Inl (CouldNotConvertError [])"
proof (cases fr)
  case (Inl e')
  with assms(1) show ?thesis by (simp add: optionsLiteral_def)
next
  case (Inr f)
  from assms(3) have "e = CouldNotConvertError []" by (rule conv_weekday_err)
  with assms(2,3) Inr show ?thesis
    by (simp add: optionsLiteral_def convertOptional_def)
qed

lemma literal_bymonth_err:
  assumes "\<forall>e'. fr = Inl e' \<longrightarrow> e' = CouldNotConvertError []"
    and "bymonth p = Some ms" and "s \<in> set ms"
    and "convertUserMonthStringToRRuleConstant s = Inl e"
  shows "optionsLiteral fr p = Inl (CouldNotConvertError [])"
proof (cases fr)
  case (Inl e')
  with assms(1) show ?thesis by (simp add: optionsLiteral_def)
next
  case (Inr f)
  have ms: "mapE convertUserMonthStringToRRuleConstant ms = Inl (CouldNotConvertError [])"
    using conv_month_err assms(3,4) by (rule mapE_rejects)
  show ?thesis
  proof (cases "wkst p")
    case None
    with assms(2) Inr ms show ?thesis
      by (simp add: optionsLiteral_def convertOptional_def)
  next
    case (Some d)
    show ?thesis
    proof (cases "convertUserWeekdayStringToRRuleConstant d")
      case (Inl e')
      with assms(1) Some show ?thesis by (rule literal_wkst_err)
    next
      case (Inr w)
      with Some assms(2) \<open>fr = Inr f\<close> ms show ?thesis
        by (simp add: optionsLiteral_def convertOptional_def)
    qed
  qed
qed









lemma lowerUnit_ascii_no_word: "c < 0x80 \<Longrightarrow> \<not> isWordChar c \<Longrightarrow> lowerUnit c = [c]"
  by (auto simp: lowerUnit_def isWordChar_def word_less_nat_alt)

lemma toLowerCase_no_word:
  "\<forall>c\<in>set s. c < 0x80 \<and> \<not> isWordChar c \<Longrightarrow> toLowerCase s = s"
  by (induction s) (simp_all add: toLowerCase_def lowerUnit_ascii_no_word)

lemma set_trim: "set (trim s) \<subseteq> set s"
proof -
  have "set (trim s) \<subseteq> set (dropWhile isWhiteSpace s)"
    unfolding trim_def
    using set_dropWhileD [of _ isWhiteSpace "rev (dropWhile isWhiteSpace s)"] by auto
  also have "\<dots> \<subseteq> set s"
    using set_dropWhileD [of _ isWhiteSpace s] by auto
  finally show ?thesis .
qed

lemma matchWord_None: "\<forall>c\<in>set s. \<not> isWordChar c \<Longrightarrow> matchWord s = None"
  by (simp add: matchWord_def)

text \<open>
  Claim C10. On an input without a word character the by-weekday converter does not fail
  with a \<open>CouldNotConvertError\<close>: the match is \<open>null\<close> and reading its length is a
  \<open>TypeError\<close>. This holds for every ASCII string without a word character, the empty
  string and \<open>??\<close> among them.
\<close>

theorem byWeekday_no_word_char_TypeError:
  assumes "\<forall>c\<in>set s. c < 0x80 \<and> \<not> isWordChar c"
  shows "convertUserByWeekdayToRRuleConstant s = Inl TypeError"
proof -
  from assms have nw: "\<forall>c\<in>set s. \<not> isWordChar c" by blast
  from assms have "toLowerCase s = s" by (rule toLowerCase_no_word)
  moreover from nw set_trim [of s] have "\<forall>c\<in>set (trim s). \<not> isWordChar c" by blast
  then have "matchWord (trim s) = None" by (rule matchWord_None)
  ultimately show ?thesis
    by (simp add: convertUserByWeekdayToRRuleConstant_def)
qed

theorem byWeekday_no_word_char_TypeError_witness:
  "convertUserByWeekdayToRRuleConstant (js ''??'') = Inl TypeError
   \<and> convertUserByWeekdayToRRuleConstant (js []) = Inl TypeError"
proof -
  have a: "\<forall>c\<in>set (js ''??''). c < 0x80 \<and> \<not> isWordChar c"
    by (simp add: js_def isWordChar_def isDigit_def)
  have b: "\<forall>c\<in>set (js []). c < 0x80 \<and> \<not> isWordChar c"
    by (simp add: js_def)
  from byWeekday_no_word_char_TypeError [OF a] byWeekday_no_word_char_TypeError [OF b]
  show ?thesis by simp
qed

section \<open>Escaping\<close>

subsection \<open>The parser consumes its input and never runs out of calls\<close>

lemma length_skipWs: "length (skipWs s) \<le> length s"
  by (simp add: skipWs_def length_dropWhile_le)

lemma skipWs_Cons_length: "skipWs s = c # cs \<Longrightarrow> length cs < length s"
  using length_skipWs [of s] by simp

lemma consChar_Some: "consChar c x = Some (str, r) \<Longrightarrow> \<exists>str'. x = Some (str', r)"
  by (auto simp: consChar_def)

lemma parseStringChars_consumes:
  "parseStringChars cs = Some (str, r) \<Longrightarrow> length r < length cs"
proof (induction "length cs" arbitrary: cs str rule: less_induct)
  case less
  show ?case
  proof (cases cs)
    case Nil
    with less.prems show ?thesis by simp
  next
    case c: (Cons c cs')
    show ?thesis
    proof (cases "c = 0x22")
      case True
      with less.prems c show ?thesis by simp
    next
      case nq: False
      show ?thesis
      proof (cases "c = 0x5C")
        case bs: True
        show ?thesis
        proof (cases cs')
          case Nil
          with less.prems c nq bs show ?thesis by simp
        next
          case e: (Cons e es)
          show ?thesis
          proof (cases "e = 0x75")
            case u: True
            from less.prems c nq bs e u obtain h1 h2 h3 h4 rest x where
              es: "es = h1 # h2 # h3 # h4 # rest" and
              r: "consChar x (parseStringChars rest) = Some (str, r)"
              by (auto split: list.splits option.splits)
            from consChar_Some [OF r] obtain str' where "parseStringChars rest = Some (str', r)" ..
            moreover have "length rest < length cs" using c e es by simp
            ultimately have "length r < length rest" by (rule less.hyps [rotated])
            with c e es show ?thesis by simp
          next
            case nu: False
            from less.prems c nq bs e nu obtain uu where
              r: "consChar uu (parseStringChars es) = Some (str, r)"
              by (auto split: option.splits)
            from consChar_Some [OF r] obtain str' where "parseStringChars es = Some (str', r)" ..
            moreover have "length es < length cs" using c e by simp
            ultimately have "length r < length es" by (rule less.hyps [rotated])
            with c e show ?thesis by simp
          qed
        qed
      next
        case nbs: False
        from less.prems c nq nbs have
          r: "consChar c (parseStringChars cs') = Some (str, r)"
          by (auto split: if_splits)
        from consChar_Some [OF r] obtain str' where "parseStringChars cs' = Some (str', r)" ..
        moreover have "length cs' < length cs" using c by simp
        ultimately have "length r < length cs'" by (rule less.hyps [rotated])
        with c show ?thesis by simp
      qed
    qed
  qed
qed

lemma length_intPart: "length (intPart s) \<le> length s"
  by (cases s) (auto simp: intPart_def intro: le_trans [OF length_takeWhile_le])

lemma parseNumber_consumes:
  assumes "parseNumber s = Some (lit, r)"
  shows "length r < length s"
proof -
  define s1 where "s1 = drop (length (minusSign s)) s"
  define i where "i = length (intPart s1)"
  from assms have ne: "intPart s1 \<noteq> []"
    by (auto simp: parseNumber_def Let_def s1_def split: if_splits)
  with assms have "length r \<le> length s1 - i"
    by (auto simp: parseNumber_def Let_def s1_def i_def)
  moreover have "i \<le> length s1" unfolding i_def by (rule length_intPart)
  moreover from ne have "0 < i" by (simp add: i_def)
  moreover have "length s1 \<le> length s" by (simp add: s1_def)
  ultimately show ?thesis by linarith
qed

lemma parse_consumes:
  "(\<forall>s v r. parseValue k s = Parsed v r \<longrightarrow> length r < length s)
   \<and> (\<forall>s ms r. parseMembers k s = Parsed ms r \<longrightarrow> length r < length s)
   \<and> (\<forall>s vs r. parseElements k s = Parsed vs r \<longrightarrow> length r < length s)"
proof (induction k)
  case 0
  then show ?case by simp
next
  case (Suc k)
  have V: "length r < length s" if "parseValue (Suc k) s = Parsed v r" for s v r
  proof -
    from that obtain c cs where sk: "skipWs s = c # cs"
      by (auto split: list.splits)
    then have l: "length cs < length s" by (rule skipWs_Cons_length)
    show ?thesis
    proof (cases "c = 0x7B")
      case True
      with that sk obtain d ds where sk2: "skipWs cs = d # ds"
        by (auto split: list.splits)
      then have l2: "length ds < length cs" by (rule skipWs_Cons_length)
      show ?thesis
      proof (cases "d = 0x7D")
        case True
        with that sk \<open>c = 0x7B\<close> sk2 have "r = ds" by simp
        with l l2 show ?thesis by simp
      next
        case False
        with that sk \<open>c = 0x7B\<close> sk2 obtain ms where "parseMembers k (d # ds) = Parsed ms r"
          by (auto split: presult.splits)
        with Suc have "length r < length (d # ds)" by blast
        with l l2 show ?thesis by simp
      qed
    next
      case nb: False
      show ?thesis
      proof (cases "c = 0x5B")
        case True
        with that sk nb obtain d ds where sk2: "skipWs cs = d # ds"
          by (auto split: list.splits)
        then have l2: "length ds < length cs" by (rule skipWs_Cons_length)
        show ?thesis
        proof (cases "d = 0x5D")
          case True
          with that sk nb \<open>c = 0x5B\<close> sk2 have "r = ds" by simp
          with l l2 show ?thesis by simp
        next
          case False
          with that sk nb \<open>c = 0x5B\<close> sk2 obtain vs where "parseElements k (d # ds) = Parsed vs r"
            by (auto split: presult.splits)
          with Suc have "length r < length (d # ds)" by blast
          with l l2 show ?thesis by simp
        qed
      next
        case na: False
        show ?thesis
        proof (cases "c = 0x22")
          case True
          with that sk nb na obtain str where "parseStringChars cs = Some (str, r)"
            by (auto split: option.splits)
          then have "length r < length cs" by (rule parseStringChars_consumes)
          with l show ?thesis by simp
        next
          case nq: False
          from that sk nb na nq have
            "r = drop 4 (c # cs) \<or> r = drop 5 (c # cs) \<or> (\<exists>lit. parseNumber (c # cs) = Some (lit, r))"
            by (auto split: if_splits option.splits)
          then have "length r < length (c # cs)"
            by (auto dest: parseNumber_consumes)
          with l show ?thesis by simp
        qed
      qed
    qed
  qed
  have M: "length r < length s" if "parseMembers (Suc k) s = Parsed ms r" for s ms r
  proof -
    from that obtain c cs where sk: "skipWs s = c # cs"
      by (auto split: list.splits)
    then have l: "length cs < length s" by (rule skipWs_Cons_length)
    from that sk have q: "c = 0x22" by (auto split: if_splits)
    from that sk q obtain key r1 where ps: "parseStringChars cs = Some (key, r1)"
      by (auto split: option.splits)
    then have l1: "length r1 < length cs" by (rule parseStringChars_consumes)
    from that sk q ps obtain c2 r2 where sk2: "skipWs r1 = c2 # r2"
      by (auto split: list.splits)
    then have l2: "length r2 < length r1" by (rule skipWs_Cons_length)
    from that sk q ps sk2 have col: "c2 = 0x3A" by (auto split: if_splits)
    from that sk q ps sk2 col obtain v r3 where pv: "parseValue k r2 = Parsed v r3"
      by (auto split: presult.splits)
    with Suc have l3: "length r3 < length r2" by blast
    from that sk q ps sk2 col pv obtain c4 r4 where sk4: "skipWs r3 = c4 # r4"
      by (auto split: list.splits)
    then have l4: "length r4 < length r3" by (rule skipWs_Cons_length)
    from that sk q ps sk2 col pv sk4 have
      "r = r4 \<or> (\<exists>ms'. parseMembers k r4 = Parsed ms' r)"
      by (auto split: if_splits presult.splits)
    with Suc have "length r \<le> length r4" by (auto simp: less_imp_le)
    with l l1 l2 l3 l4 show ?thesis by simp
  qed
  have E: "length r < length s" if "parseElements (Suc k) s = Parsed vs r" for s vs r
  proof -
    from that obtain v r1 where pv: "parseValue k s = Parsed v r1"
      by (auto split: presult.splits)
    with Suc have l1: "length r1 < length s" by blast
    from that pv obtain c r2 where sk: "skipWs r1 = c # r2"
      by (auto split: list.splits)
    then have l2: "length r2 < length r1" by (rule skipWs_Cons_length)
    from that pv sk have "r = r2 \<or> (\<exists>vs'. parseElements k r2 = Parsed vs' r)"
      by (auto split: if_splits presult.splits)
    with Suc have "length r \<le> length r2" by (auto simp: less_imp_le)
    with l1 l2 show ?thesis by simp
  qed
  from V M E show ?case by blast
qed



lemma parse_fuel:
  "(\<forall>s. 2 * length s < k \<longrightarrow> parseValue k s \<noteq> OutOfFuel)
   \<and> (\<forall>s. 2 * length s < k \<longrightarrow> parseMembers k s \<noteq> OutOfFuel)
   \<and> (\<forall>s. 2 * length s + 1 < k \<longrightarrow> parseElements k s \<noteq> OutOfFuel)"
proof (induction k)
  case 0
  then show ?case by simp
next
  case (Suc k)
  have V: "parseValue (Suc k) s \<noteq> OutOfFuel" if b: "2 * length s < Suc k" for s
  proof
    assume o: "parseValue (Suc k) s = OutOfFuel"
    then obtain c cs where sk: "skipWs s = c # cs"
      by (auto split: list.splits)
    then have l: "length cs < length s" by (rule skipWs_Cons_length)
    show False
    proof (cases "c = 0x7B")
      case True
      with o sk obtain d ds where sk2: "skipWs cs = d # ds"
        by (auto split: list.splits)
      then have l2: "length ds < length cs" by (rule skipWs_Cons_length)
      from o sk True sk2 have "parseMembers k (d # ds) = OutOfFuel"
        by (auto split: if_splits presult.splits)
      moreover from b l l2 have "2 * length (d # ds) < k" by simp
      ultimately show False using Suc by blast
    next
      case nb: False
      show False
      proof (cases "c = 0x5B")
        case True
        with o sk nb obtain d ds where sk2: "skipWs cs = d # ds"
          by (auto split: list.splits)
        then have l2: "length ds < length cs" by (rule skipWs_Cons_length)
        from o sk nb True sk2 have "parseElements k (d # ds) = OutOfFuel"
          by (auto split: if_splits presult.splits)
        moreover from b l l2 have "2 * length (d # ds) + 1 < k" by simp
        ultimately show False using Suc by blast
      next
        case na: False
        with o sk nb show False
          by (auto split: if_splits option.splits)
      qed
    qed
  qed
  have M: "parseMembers (Suc k) s \<noteq> OutOfFuel" if b: "2 * length s < Suc k" for s
  proof
    assume o: "parseMembers (Suc k) s = OutOfFuel"
    then obtain c cs where sk: "skipWs s = c # cs"
      by (auto split: list.splits)
    then have l: "length cs < length s" by (rule skipWs_Cons_length)
    from o sk have q: "c = 0x22" by (auto split: if_splits)
    from o sk q obtain key r1 where ps: "parseStringChars cs = Some (key, r1)"
      by (auto split: option.splits)
    then have l1: "length r1 < length cs" by (rule parseStringChars_consumes)
    from o sk q ps obtain c2 r2 where sk2: "skipWs r1 = c2 # r2"
      by (auto split: list.splits)
    then have l2: "length r2 < length r1" by (rule skipWs_Cons_length)
    from o sk q ps sk2 have col: "c2 = 0x3A" by (auto split: if_splits)
    from b l l1 l2 have "2 * length r2 < k" by simp
    with Suc have nv: "parseValue k r2 \<noteq> OutOfFuel" by blast
    with o sk q ps sk2 col obtain v r3 where pv: "parseValue k r2 = Parsed v r3"
      by (auto split: presult.splits)
    with parse_consumes [of k] have l3: "length r3 < length r2" by blast
    from o sk q ps sk2 col pv obtain c4 r4 where sk4: "skipWs r3 = c4 # r4"
      by (auto split: list.splits)
    then have l4: "length r4 < length r3" by (rule skipWs_Cons_length)
    from o sk q ps sk2 col pv sk4 have "parseMembers k r4 = OutOfFuel"
      by (auto split: if_splits presult.splits)
    moreover from b l l1 l2 l3 l4 have "2 * length r4 < k" by simp
    ultimately show False using Suc by blast
  qed
  have E: "parseElements (Suc k) s \<noteq> OutOfFuel" if b: "2 * length s + 1 < Suc k" for s
  proof
    assume o: "parseElements (Suc k) s = OutOfFuel"
    from b have "2 * length s < k" by simp
    with Suc have nv: "parseValue k s \<noteq> OutOfFuel" by blast
    with o obtain v r1 where pv: "parseValue k s = Parsed v r1"
      by (auto split: presult.splits)
    with parse_consumes [of k] have l1: "length r1 < length s" by blast
    from o pv obtain c r2 where sk: "skipWs r1 = c # r2"
      by (auto split: list.splits)
    then have l2: "length r2 < length r1" by (rule skipWs_Cons_length)
    from o pv sk have "parseElements k r2 = OutOfFuel"
      by (auto split: if_splits presult.splits)
    moreover from b l1 l2 have "2 * length r2 + 1 < k" by simp
    ultimately show False using Suc by blast
  qed
  from V M E show ?case by blast
qed

lemma JSON_parse_fuel: "parseValue (Suc (length t + length t)) t \<noteq> OutOfFuel"
  using parse_fuel [of "Suc (length t + length t)"] by simp

subsection \<open>Escapes are parsed back to the code units they stand for\<close>

lemma lt16_cases:
  "d < 16 \<Longrightarrow> d = 0 \<or> d = 1 \<or> d = 2 \<or> d = 3 \<or> d = 4 \<or> d = 5 \<or> d = 6 \<or> d = 7 \<or> d = 8
     \<or> d = 9 \<or> d = 10 \<or> d = 11 \<or> d = 12 \<or> d = 13 \<or> d = 14 \<or> d = (15::nat)"
  by arith

lemma hexValue_hexDigit: "d < 16 \<Longrightarrow> hexValue (hexDigit d) = Some d"
  by (drule lt16_cases) (elim disjE; simp add: hexValue_def hexDigit_def)

lemma hexDigit_not_lt: "d < 16 \<Longrightarrow> \<not> isLineTerminator (hexDigit d)"
  by (drule lt16_cases) (elim disjE; simp add: hexDigit_def isLineTerminator_def)

lemma unat_lt_65536: "unat (c :: 16 word) < 65536"
  using unsigned_less [of c, where 'a = nat] by simp

lemma hex_recompose:
  assumes "u < 65536"
  shows "4096 * (u div 4096 mod 16) + 256 * (u div 256 mod 16) + 16 * (u div 16 mod 16) + u mod 16
           = (u::nat)"
proof -
  define q1 where "q1 = u div 16"
  define q2 where "q2 = q1 div 16"
  define q3 where "q3 = q2 div 16"
  have d256: "u div 256 = q2"
    using div_mult2_eq [of u 16 16] by (simp add: q1_def q2_def)
  have d4096: "u div 4096 = q3"
    using div_mult2_eq [of u 256 16] by (simp add: d256 q3_def)
  have e1: "u = 16 * q1 + u mod 16" by (simp add: q1_def)
  have e2: "q1 = 16 * q2 + q1 mod 16" by (simp add: q2_def)
  have e3: "q2 = 16 * q3 + q2 mod 16" by (simp add: q3_def)
  from assms e1 e2 e3 have "q3 < 16" by linarith
  then have m3: "q3 mod 16 = q3" by simp
  have "4096 * q3 + 256 * (q2 mod 16) + 16 * (q1 mod 16) + u mod 16 = u"
    using e1 e2 e3 by linarith
  then show ?thesis
    by (simp add: d256 d4096 m3 q1_def [symmetric])
qed

lemma hex_bounds:
  "unat (c::16 word) div 4096 mod 16 < 16" "unat c div 256 mod 16 < 16"
  "unat c div 16 mod 16 < 16" "unat c mod 16 < 16"
  by simp_all

lemma unicodeEscape_no_lt: "\<not> list_ex isLineTerminator (unicodeEscape c)"
proof -
  have "\<not> isLineTerminator 0x5C" "\<not> isLineTerminator 0x75"
    by (simp_all add: isLineTerminator_def)
  then show ?thesis
    unfolding unicodeEscape_def
    by (simp add: hexDigit_not_lt [OF hex_bounds(1)] hexDigit_not_lt [OF hex_bounds(2)]
        hexDigit_not_lt [OF hex_bounds(3)] hexDigit_not_lt [OF hex_bounds(4)])
qed

lemma parse_unicodeEscape:
  "parseStringChars (unicodeEscape c @ rest) = consChar c (parseStringChars rest)"
proof -
  have v: "of_nat (4096 * (unat c div 4096 mod 16) + 256 * (unat c div 256 mod 16)
          + 16 * (unat c div 16 mod 16) + unat c mod 16) = c"
    by (simp only: hex_recompose [OF unat_lt_65536]) simp
  from v have v': "4096 * word_of_nat (unat c div 4096 mod 16)
      + 256 * word_of_nat (unat c div 256 mod 16) + 16 * word_of_nat (unat c div 16 mod 16)
      + word_of_nat (unat c mod 16) = c"
    by simp
  have "parseStringChars (unicodeEscape c @ rest) =
        parseStringChars (0x5C # 0x75 # hexDigit (unat c div 4096 mod 16)
          # hexDigit (unat c div 256 mod 16) # hexDigit (unat c div 16 mod 16)
          # hexDigit (unat c mod 16) # rest)"
    by (simp add: unicodeEscape_def)
  also have "\<dots> = consChar c (parseStringChars rest)"
    by (subst parseStringChars.simps)
       (simp add: hexValue_hexDigit [OF hex_bounds(1)] hexValue_hexDigit [OF hex_bounds(2)]
          hexValue_hexDigit [OF hex_bounds(3)] hexValue_hexDigit [OF hex_bounds(4)] v'
          del: parseStringChars.simps)
  finally show ?thesis .
qed

lemma quoteUnit_line_terminator:
  "list_ex isLineTerminator (quoteUnit c) \<longleftrightarrow> c = 0x2028 \<or> c = 0x2029"
  by (auto simp: quoteUnit_def unicodeEscape_no_lt isLineTerminator_def isLeadingSurrogate_def
      isTrailingSurrogate_def)

lemma surrogate_plain:
  "0xD800 \<le> (c::16 word) \<Longrightarrow> c \<noteq> 0x22 \<and> c \<noteq> 0x5C \<and> \<not> c < 0x20"
  by (auto simp: word_le_nat_alt word_less_nat_alt)

lemma parse_plain:
  "c \<noteq> 0x22 \<Longrightarrow> c \<noteq> 0x5C \<Longrightarrow> \<not> c < 0x20 \<Longrightarrow>
   parseStringChars (c # rest) = consChar c (parseStringChars rest)"
  by simp

lemma parse_simple_escape:
  "simpleEscape e = Some u \<Longrightarrow>
   parseStringChars (0x5C # e # rest) = consChar u (parseStringChars rest)"
  by (auto simp: simpleEscape_def split: if_splits)

lemma parse_quoteUnit:
  "parseStringChars (quoteUnit c @ rest) = consChar c (parseStringChars rest)"
proof -
  consider "c = 0x08" | "c = 0x09" | "c = 0x0A" | "c = 0x0C" | "c = 0x0D" | "c = 0x22" | "c = 0x5C"
    | "c \<notin> {0x08, 0x09, 0x0A, 0x0C, 0x0D, 0x22, 0x5C}"
        "c < 0x20 \<or> isLeadingSurrogate c \<or> isTrailingSurrogate c"
    | "c \<notin> {0x08, 0x09, 0x0A, 0x0C, 0x0D, 0x22, 0x5C}"
        "\<not> (c < 0x20 \<or> isLeadingSurrogate c \<or> isTrailingSurrogate c)"
    by blast
  then show ?thesis
  proof cases
    case 8
    then have "quoteUnit c = unicodeEscape c" by (simp add: quoteUnit_def)
    then show ?thesis by (simp only: parse_unicodeEscape)
  next
    case 9
    then have "quoteUnit c = [c]" by (simp add: quoteUnit_def)
    with 9 show ?thesis by (simp add: parse_plain del: parseStringChars.simps)
  qed (simp_all add: quoteUnit_def parse_simple_escape simpleEscape_def del: parseStringChars.simps)
qed

lemma parse_pair:
  "isLeadingSurrogate c \<Longrightarrow> isTrailingSurrogate d \<Longrightarrow>
   parseStringChars (c # d # rest) = consChar c (consChar d (parseStringChars rest))"
proof -
  assume "isLeadingSurrogate c" "isTrailingSurrogate d"
  then have "0xD800 \<le> c" "0xD800 \<le> d"
    by (auto simp: isLeadingSurrogate_def isTrailingSurrogate_def word_le_nat_alt)
  then show ?thesis
    using surrogate_plain [of c] surrogate_plain [of d]
    by (simp add: parse_plain del: parseStringChars.simps)
qed

lemma surrogate_no_line_terminator:
  "0xD800 \<le> (c::16 word) \<Longrightarrow> \<not> isLineTerminator c \<and> c \<noteq> 0x2028 \<and> c \<noteq> 0x2029"
  by (auto simp: isLineTerminator_def word_le_nat_alt)

lemma quote_line_terminator:
  "list_ex isLineTerminator (quoteJSONChars s) \<longleftrightarrow> list_ex (\<lambda>c. c = 0x2028 \<or> c = 0x2029) s"
proof (induction s rule: quoteJSONChars.induct)
  case 1
  then show ?case by simp
next
  case (2 c)
  then show ?case by (simp add: quoteUnit_line_terminator)
next
  case (3 c d ds)
  show ?case
  proof (cases "isLeadingSurrogate c \<and> isTrailingSurrogate d")
    case True
    then have "0xD800 \<le> c" "0xD800 \<le> d"
      by (auto simp: isLeadingSurrogate_def isTrailingSurrogate_def word_le_nat_alt)
    with True "3.IH"(1) surrogate_no_line_terminator [of c] surrogate_no_line_terminator [of d]
    show ?thesis by simp
  next
    case False
    then have eq: "quoteJSONChars (c # d # ds) = quoteUnit c @ quoteJSONChars (d # ds)"
      by (simp only: quoteJSONChars.simps(3) if_False)
    have "list_ex isLineTerminator (quoteJSONChars (c # d # ds)) \<longleftrightarrow>
            list_ex isLineTerminator (quoteUnit c)
            \<or> list_ex isLineTerminator (quoteJSONChars (d # ds))"
      by (simp only: eq list_ex_append)
    also have "\<dots> \<longleftrightarrow> (c = 0x2028 \<or> c = 0x2029)
            \<or> list_ex (\<lambda>c. c = 0x2028 \<or> c = 0x2029) (d # ds)"
      by (simp only: quoteUnit_line_terminator "3.IH"(2) [OF False])
    also have "\<dots> \<longleftrightarrow> list_ex (\<lambda>c. c = 0x2028 \<or> c = 0x2029) (c # d # ds)"
      by (simp only: list_ex_Cons_iff)
    finally show ?thesis .
  qed
qed

lemma parse_quote:
  "parseStringChars (quoteJSONChars s @ 0x22 # rest) = Some (s, rest)"
proof (induction s rule: quoteJSONChars.induct)
  case 1
  then show ?case by simp
next
  case (2 c)
  have "parseStringChars (quoteUnit c @ 0x22 # rest) = consChar c (parseStringChars (0x22 # rest))"
    by (rule parse_quoteUnit)
  then show ?case by (simp add: consChar_def)
next
  case (3 c d ds)
  show ?case
  proof (cases "isLeadingSurrogate c \<and> isTrailingSurrogate d")
    case True
    then have "parseStringChars (quoteJSONChars (c # d # ds) @ 0x22 # rest) =
               consChar c (consChar d (parseStringChars (quoteJSONChars ds @ 0x22 # rest)))"
      by (simp add: parse_pair del: parseStringChars.simps)
    with True "3.IH"(1) show ?thesis by (simp add: consChar_def)
  next
    case False
    then have eq: "quoteJSONChars (c # d # ds) = quoteUnit c @ quoteJSONChars (d # ds)"
      by (simp only: quoteJSONChars.simps(3) if_False)
    have "parseStringChars (quoteJSONChars (c # d # ds) @ 0x22 # rest) =
               consChar c (parseStringChars (quoteJSONChars (d # ds) @ 0x22 # rest))"
      by (simp only: eq append_assoc parse_quoteUnit)
    with False "3.IH"(2) show ?thesis by (simp add: consChar_def)
  qed
qed

lemma escapeControlCodes_quote:
  assumes "\<not> list_ex (\<lambda>c. c = 0x2028 \<or> c = 0x2029) s"
  shows "escapeControlCodes s = Inr (quoteJSONChars s)"
proof -
  let ?q = "quoteJSONChars s"
  have nl: "\<not> list_ex isLineTerminator ?q"
    using assms by (simp add: quote_line_terminator)
  have "matchEscaped (JSON_stringify_s s) = Some ?q"
    using nl
    by (simp add: matchEscaped_def JSON_stringify_s_def isWhiteSpace_def isLineTerminator_def)
  then show ?thesis by (simp add: escapeControlCodes_def)
qed

lemma unescapeControlCodes_quote:
  "unescapeControlCodes (quoteJSONChars s) = Inr (String s)"
proof -
  let ?q = "quoteJSONChars s"
  let ?t = "[0x7B, 0x22, 0x73, 0x22, 0x3A, 0x20, 0x22] @ ?q @ [0x22, 0x7D]"
  have sw: "\<not> isJSONWhiteSpace 0x7B" "\<not> isJSONWhiteSpace 0x22" "\<not> isJSONWhiteSpace 0x3A"
    "\<not> isJSONWhiteSpace 0x7D" "isJSONWhiteSpace 0x20"
    by (simp_all add: isJSONWhiteSpace_def)
  have key: "parseStringChars (0x73 # 0x22 # 0x3A # 0x20 # 0x22 # ?q @ [0x22, 0x7D]) =
               Some ([0x73], 0x3A # 0x20 # 0x22 # ?q @ [0x22, 0x7D])"
    by (simp add: consChar_def)
  have val: "parseStringChars (?q @ [0x22, 0x7D]) = Some (s, [0x7D])"
    by (rule parse_quote)
  obtain k where k: "length ?t + length ?t = Suc (Suc k)"
    by simp
  have "parseValue (Suc (Suc (Suc k))) ?t = Parsed (Object [([0x73], String s)]) []"
    by (simp add: skipWs_def sw key val del: parseStringChars.simps)
  then have "JSON_parse ?t = Inr (Object [([0x73], String s)])"
    by (simp only: JSON_parse_def k) (simp add: skipWs_def)
  then show ?thesis
    by (simp add: unescapeControlCodes_def get_s_def)
qed

lemma unescapeEscaped_roundtrip:
  "\<not> list_ex (\<lambda>c. c = 0x2028 \<or> c = 0x2029) s \<Longrightarrow> unescapeEscaped s = Inr (String s)"
  by (simp add: unescapeEscaped_def escapeControlCodes_quote unescapeControlCodes_quote)

text \<open>
  Claim C8. Unescaping an escaped string is to give the string back, for every string.
  \<open>JSON.stringify\<close> does not escape the line separators \<open>U+2028\<close> and \<open>U+2029\<close>, and
  the dot of the regular expression does not match them: for a string that holds one, the
  match is \<open>null\<close> and \<open>escapeControlCodes\<close> ends in a \<open>TypeError\<close>, so there is
  nothing to unescape. Every string without a line separator makes the round trip
  (\<open>unescapeEscaped_roundtrip\<close> above), a string with a line feed for one.
\<close>

theorem escape_line_separator_TypeError:
  "escapeControlCodes [0x2028] = Inl TypeError
   \<and> unescapeEscaped [0x2028] = Inl TypeError
   \<and> unescapeEscaped [0x41, 0x2029, 0x42] = Inl TypeError
   \<and> unescapeEscaped [0x41, 0x0A, 0x42] = Inr (String [0x41, 0x0A, 0x42])"
  by (simp add: eval_defs)

section \<open>Deleting the undefined properties\<close>

lemma map_of_remove_prop: "map_of (remove_prop ob x) k = (if k = x then None else map_of ob k)"
  by (induction ob) (auto simp: remove_prop_def)

lemma get_prop_None_iff:
  "get_prop ob k = None \<longleftrightarrow> map_of ob k = None \<or> map_of ob k = Some None"
  by (simp add: get_prop_def split: option.splits)

lemma map_of_deleteIfUndefined:
  "map_of (deleteIfUndefined ob x) k =
     (if k = x \<and> map_of ob k = Some None then None else map_of ob k)"
  by (auto simp: deleteIfUndefined_def map_of_remove_prop get_prop_None_iff)

lemma keys_remove_prop: "Object_keys (remove_prop ob x) = filter (\<lambda>k. k \<noteq> x) (Object_keys ob)"
  by (induction ob) (auto simp: remove_prop_def Object_keys_def)

lemma map_of_keys: "k \<in> set (Object_keys ob) \<longleftrightarrow> map_of ob k \<noteq> None"
  by (simp add: Object_keys_def map_of_eq_None_iff)

lemma keys_deleteIfUndefined:
  "Object_keys (deleteIfUndefined ob x) =
     filter (\<lambda>k. \<not> (k = x \<and> map_of ob k = Some None)) (Object_keys ob)"
proof (cases "get_prop ob x = None")
  case True
  have "filter (\<lambda>k. k \<noteq> x) (Object_keys ob) =
        filter (\<lambda>k. \<not> (k = x \<and> map_of ob k = Some None)) (Object_keys ob)"
    using True by (intro filter_cong) (auto simp: get_prop_None_iff map_of_keys)
  with True show ?thesis by (simp add: deleteIfUndefined_def keys_remove_prop)
next
  case False
  then have "map_of ob x \<noteq> Some None" by (simp add: get_prop_None_iff)
  then have "filter (\<lambda>k. \<not> (k = x \<and> map_of ob k = Some None)) (Object_keys ob) = Object_keys ob"
    by (auto simp: filter_id_conv)
  with False show ?thesis by (auto simp add: deleteIfUndefined_def)
qed

lemma fold_delete_map_of:
  "map_of (fold (\<lambda>key ob. deleteIfUndefined ob key) ks ob) k =
     (if k \<in> set ks \<and> map_of ob k = Some None then None else map_of ob k)"
  by (induction ks arbitrary: ob) (auto simp: map_of_deleteIfUndefined)

lemma fold_delete_keys:
  "Object_keys (fold (\<lambda>key ob. deleteIfUndefined ob key) ks ob) =
     filter (\<lambda>k. \<not> (k \<in> set ks \<and> map_of ob k = Some None)) (Object_keys ob)"
proof (induction ks arbitrary: ob)
  case Nil
  then show ?case by simp
next
  case (Cons x ks)
  show ?case
    by (auto simp: Cons.IH keys_deleteIfUndefined map_of_deleteIfUndefined intro!: filter_cong)
qed

text \<open>
  In an object none of whose properties that are not configurable holds \<open>undefined\<close>,
  every \<open>delete\<close> of the loop goes through, in either mode.
\<close>

lemma delete_prop_goes_through:
  assumes "get_prop (props ob) key = None"
    and "\<forall>k\<in>set (nonconfigurable ob). map_of (props ob) k \<noteq> Some None"
  shows "delete_prop strict ob key = Inr (ob\<lparr>props := deleteIfUndefined (props ob) key\<rparr>)"
proof -
  have "\<not> (key \<in> set (Object_keys (props ob)) \<and> key \<in> set (nonconfigurable ob))"
    using assms by (auto simp: get_prop_None_iff map_of_keys)
  with assms(1) show ?thesis
    by (auto simp: delete_prop_def deleteIfUndefined_def)
qed

text \<open>Then the loop over the store changes the one object, as the callback does.\<close>

lemma deleteLoop_goes_through:
  assumes "r < length h"
    and "\<forall>k\<in>set (nonconfigurable (h ! r)). map_of (props (h ! r)) k \<noteq> Some None"
  shows "deleteLoop strict h r ks =
     (h[r := (h ! r)\<lparr>props := fold (\<lambda>key ob. deleteIfUndefined ob key) ks (props (h ! r))\<rparr>],
      None)"
  using assms
proof (induction ks arbitrary: h)
  case Nil
  then show ?case by simp
next
  case (Cons key ks)
  let ?ob = "(h ! r)\<lparr>props := deleteIfUndefined (props (h ! r)) key\<rparr>"
  show ?case
  proof (cases "get_prop (props (h ! r)) key = None")
    case True
    have d: "delete_prop strict (h ! r) key = Inr ?ob"
      using True Cons.prems(2) by (rule delete_prop_goes_through)
    have len: "r < length (h[r := ?ob])"
      using Cons.prems(1) by simp
    have inv: "\<forall>k\<in>set (nonconfigurable (h[r := ?ob] ! r)).
                 map_of (props (h[r := ?ob] ! r)) k \<noteq> Some None"
      using Cons.prems by (simp add: map_of_deleteIfUndefined)
    have "deleteLoop strict h r (key # ks) = deleteLoop strict (h[r := ?ob]) r ks"
      using True d by simp
    also note Cons.IH [OF len inv]
    finally show ?thesis
      using Cons.prems(1) by simp
  next
    case False
    then have same: "deleteIfUndefined (props (h ! r)) key = props (h ! r)"
      by (auto simp: deleteIfUndefined_def)
    have "deleteLoop strict h r (key # ks) = deleteLoop strict h r ks"
      using False by auto
    also note Cons.IH [OF Cons.prems]
    finally show ?thesis
      by (simp add: same)
  qed
qed

lemma deleteUndefinedProps_result:
  assumes "r < length h"
    and "\<forall>k\<in>set (nonconfigurable (h ! r)). map_of (props (h ! r)) k \<noteq> Some None"
  shows "deleteUndefinedProps strict h r =
     (h[r := (h ! r)\<lparr>props := fold (\<lambda>key ob. deleteIfUndefined ob key)
                                  (Object_keys (props (h ! r))) (props (h ! r))\<rparr>], Inr r)"
  using assms by (simp add: deleteUndefinedProps_def deleteLoop_goes_through)

lemma map_of_dropped:
  "map_of (fold (\<lambda>key ob. deleteIfUndefined ob key) (Object_keys ob) ob) k =
     (if map_of ob k = Some None then None else map_of ob k)"
  by (simp add: fold_delete_map_of map_of_keys)

lemma keys_dropped:
  "Object_keys (fold (\<lambda>key ob. deleteIfUndefined ob key) (Object_keys ob) ob) =
     filter (\<lambda>k. get_prop ob k \<noteq> None) (Object_keys ob)"
  unfolding fold_delete_keys
  by (intro filter_cong) (auto simp: get_prop_None_iff map_of_keys)

lemma get_prop_dropped:
  "get_prop (fold (\<lambda>key ob. deleteIfUndefined ob key) (Object_keys ob) ob) k = get_prop ob k"
  by (simp add: get_prop_def map_of_dropped split: option.splits)

lemma in_keys_dropped:
  "k \<in> set (Object_keys (fold (\<lambda>key ob. deleteIfUndefined ob key) (Object_keys ob) ob))
     \<longleftrightarrow> get_prop ob k \<noteq> None"
  by (auto simp: keys_dropped get_prop_None_iff map_of_keys)

text \<open>
  A property that is not configurable and holds \<open>undefined\<close> is not removed: the call
  ends in a \<open>TypeError\<close> in strict mode, and otherwise returns the object with the key
  still in it, mapped to \<open>undefined\<close>.
\<close>

lemma deleteLoop_keeps_nonconfigurable:
  assumes "r < length h" and "k \<in> set (nonconfigurable (h ! r))"
    and "map_of (props (h ! r)) k = Some None"
    and "deleteLoop strict h r ks = (h', res)"
  shows "r < length h' \<and> k \<in> set (nonconfigurable (h' ! r))
     \<and> map_of (props (h' ! r)) k = Some None"
  using assms
proof (induction ks arbitrary: h)
  case Nil
  then show ?case by simp
next
  case (Cons key ks)
  show ?case
  proof (cases "get_prop (props (h ! r)) key = None")
    case True
    show ?thesis
    proof (cases "delete_prop strict (h ! r) key")
      case (Inl e)
      with True Cons.prems show ?thesis by simp
    next
      case (Inr ob)
      have ne: "key \<noteq> k \<or> ob = h ! r"
        using Inr Cons.prems(2,3)
        by (auto simp: delete_prop_def map_of_keys split: if_splits)
      have ob: "k \<in> set (nonconfigurable ob) \<and> map_of (props ob) k = Some None"
        using Inr Cons.prems(2,3) ne
        by (auto simp: delete_prop_def map_of_remove_prop split: if_splits)
      from True Inr Cons.prems(4) have "deleteLoop strict (h[r := ob]) r ks = (h', res)"
        by simp
      with ob Cons.prems(1) show ?thesis
        by (intro Cons.IH [of "h[r := ob]"]) simp_all
    qed
  next
    case False
    with Cons.prems(4) have "deleteLoop strict h r ks = (h', res)" by auto
    with Cons.prems(1-3) show ?thesis by (intro Cons.IH [of h])
  qed
qed

lemma deleteLoop_strict_throws:
  assumes "r < length h" and "k \<in> set ks" and "k \<in> set (nonconfigurable (h ! r))"
    and "map_of (props (h ! r)) k = Some None"
  shows "\<exists>h'. deleteLoop True h r ks = (h', Some TypeError)"
  using assms
proof (induction ks arbitrary: h)
  case Nil
  then show ?case by simp
next
  case (Cons key ks)
  show ?case
  proof (cases "get_prop (props (h ! r)) key = None")
    case True
    show ?thesis
    proof (cases "delete_prop True (h ! r) key")
      case (Inl e)
      then have "e = TypeError" by (simp add: delete_prop_def split: if_splits)
      with True Inl show ?thesis by simp
    next
      case (Inr ob)
      have ne: "key \<noteq> k"
        using Inr Cons.prems(3,4) by (auto simp: delete_prop_def map_of_keys split: if_splits)
      have ob: "k \<in> set (nonconfigurable ob) \<and> map_of (props ob) k = Some None"
        using Inr Cons.prems(3,4) ne
        by (auto simp: delete_prop_def map_of_remove_prop split: if_splits)
      from ne Cons.prems(2) have "k \<in> set ks" by simp
      with ob Cons.prems(1) have "\<exists>h'. deleteLoop True (h[r := ob]) r ks = (h', Some TypeError)"
        by (intro Cons.IH [of "h[r := ob]"]) simp_all
      with True Inr show ?thesis by simp
    qed
  next
    case False
    with Cons.prems(4) have "key \<noteq> k" by (auto simp: get_prop_None_iff)
    with Cons.prems(2) have "k \<in> set ks" by simp
    with Cons.prems(1,3,4) have "\<exists>h'. deleteLoop True h r ks = (h', Some TypeError)"
      by (intro Cons.IH [of h])
    with False show ?thesis by auto
  qed
qed

lemma deleteUndefinedProps_nonconfigurable_undefined:
  assumes "r < length h" and "k \<in> set (nonconfigurable (h ! r))"
    and "map_of (props (h ! r)) k = Some None"
  shows "(\<exists>h'. deleteUndefinedProps True h r = (h', Inl TypeError))
     \<and> (deleteUndefinedProps strict h r = (h', res) \<longrightarrow> map_of (props (h' ! r)) k = Some None)"
proof
  have "k \<in> set (Object_keys (props (h ! r)))"
    using assms(3) by (simp add: map_of_keys)
  from deleteLoop_strict_throws [OF assms(1) this assms(2,3)]
  show "\<exists>h'. deleteUndefinedProps True h r = (h', Inl TypeError)"
    using assms(1) by (auto simp: deleteUndefinedProps_def)
next
  show "deleteUndefinedProps strict h r = (h', res) \<longrightarrow> map_of (props (h' ! r)) k = Some None"
  proof
    assume a: "deleteUndefinedProps strict h r = (h', res)"
    obtain h2 res2 where l: "deleteLoop strict h r (Object_keys (props (h ! r))) = (h2, res2)"
      by (cases "deleteLoop strict h r (Object_keys (props (h ! r)))")
    with a assms(1) have "h' = h2"
      by (auto simp: deleteUndefinedProps_def split: option.splits)
    with deleteLoop_keeps_nonconfigurable [OF assms l]
    show "map_of (props (h' ! r)) k = Some None" by simp
  qed
qed




section \<open>Modifying a rule\<close>

lemma map_of_set_prop: "map_of (set_prop ob k v) = (map_of ob)(k \<mapsto> v)"
  by (induction ob k v rule: set_prop.induct) auto

lemma map_of_foldl_set_prop:
  "map_of (foldl (\<lambda>acc key. set_prop acc key (g key)) t ks) k =
     (if k \<in> set ks then Some (g k) else map_of t k)"
  by (induction ks arbitrary: t) (auto simp: map_of_set_prop)

lemma get_prop_spread:
  "get_prop (spread a b) k = (if k \<in> set (Object_keys b) then get_prop b k else get_prop a k)"
  by (auto simp: spread_def copyDataProperties_def get_prop_def map_of_foldl_set_prop map_of_keys
      split: option.splits)

lemma get_prop_overlay:
  "get_prop (spread a (fold (\<lambda>key ob. deleteIfUndefined ob key) (Object_keys b) b)) k =
     (case get_prop b k of Some v \<Rightarrow> Some v | None \<Rightarrow> get_prop a k)"
  by (simp add: get_prop_spread in_keys_dropped get_prop_dropped split: option.splits)

text \<open>
  The store of \<open>ModifyRRule\<close> when the rule string parses and the supplied tokens
  convert: three new objects, all their properties configurable, namely the options
  parsed from the rule string, the literal without its \<open>undefined\<close> properties, and the
  merged options.
\<close>

lemma modifyOptions_result:
  assumes "unescapeControlCodes rrule = Inr u" and "rrulestr u = Inr parsed"
    and "convertOptional convertFrequencyStringToRRuleConstant frequency = Inr f"
    and "convertOptional convertUserWeekdayStringToRRuleConstant (wkst p) = Inr w"
    and "convertOptional (mapE convertUserMonthStringToRRuleConstant) (bymonth p) = Inr ms"
    and "convertOptional (mapE convertUserByWeekdayToRRuleConstant) (byweekday p) = Inr wds"
  shows "modifyOptions strict rrulestr h rrule frequency p =
     Inr (h @ [\<lparr>props = origOptions parsed, nonconfigurable = []\<rparr>,
               \<lparr>props = fold (\<lambda>key ob. deleteIfUndefined ob key)
                          (Object_keys (optionsObject f w ms wds p)) (optionsObject f w ms wds p),
                nonconfigurable = []\<rparr>,
               \<lparr>props = spread (origOptions parsed)
                          (fold (\<lambda>key ob. deleteIfUndefined ob key)
                             (Object_keys (optionsObject f w ms wds p))
                             (optionsObject f w ms wds p)),
                nonconfigurable = []\<rparr>],
          length h, length h + 2)"
proof -
  let ?po = "\<lparr>props = origOptions parsed, nonconfigurable = []\<rparr>"
  let ?lit = "optionsObject f w ms wds p"
  let ?lit' = "fold (\<lambda>key ob. deleteIfUndefined ob key) (Object_keys ?lit) ?lit"
  have lit: "optionsLiteral (convertOptional convertFrequencyStringToRRuleConstant frequency) p
               = Inr ?lit"
    using assms(3-6) by (simp add: optionsLiteral_def)
  have del: "deleteUndefinedProps strict (h @ [?po, \<lparr>props = ?lit, nonconfigurable = []\<rparr>])
               (Suc (length h)) =
             (h @ [?po, \<lparr>props = ?lit', nonconfigurable = []\<rparr>], Inr (Suc (length h)))"
    by (subst deleteUndefinedProps_result) (simp_all add: nth_append list_update_append)
  from assms(1,2) lit del show ?thesis
    by (simp add: modifyOptions_def alloc_def nth_append)
qed

text \<open>
  A call of \<open>modifyOptions\<close> that returns has parsed the rule string and converted the
  supplied tokens. The merged options are then a new object of the store, the options
  parsed from the rule string are as the parser returned them, and every object that was
  in the store before is unchanged.
\<close>

lemma modifyOptions_store:
  assumes "modifyOptions strict rrulestr h rrule frequency p = Inr (h', options, merged)"
  shows "\<exists>u parsed f w ms wds.
      unescapeControlCodes rrule = Inr u \<and> rrulestr u = Inr parsed
    \<and> convertOptional convertFrequencyStringToRRuleConstant frequency = Inr f
    \<and> convertOptional convertUserWeekdayStringToRRuleConstant (wkst p) = Inr w
    \<and> convertOptional (mapE convertUserMonthStringToRRuleConstant) (bymonth p) = Inr ms
    \<and> convertOptional (mapE convertUserByWeekdayToRRuleConstant) (byweekday p) = Inr wds
    \<and> options = length h \<and> merged = length h + 2 \<and> length h' = length h + 3
    \<and> props (h' ! options) = origOptions parsed
    \<and> (\<forall>a<length h. h' ! a = h ! a)
    \<and> (\<forall>k. get_prop (props (h' ! merged)) k =
            (case get_prop (optionsObject f w ms wds p) k of
               Some v \<Rightarrow> Some v
             | None \<Rightarrow> get_prop (origOptions parsed) k))"
proof -
  from assms obtain u where u: "unescapeControlCodes rrule = Inr u"
    by (auto simp: modifyOptions_def split: sum.splits)
  from assms u obtain parsed where parsed: "rrulestr u = Inr parsed"
    by (auto simp: modifyOptions_def split: sum.splits)
  from assms u parsed obtain lit where
    lit: "optionsLiteral (convertOptional convertFrequencyStringToRRuleConstant frequency) p = Inr lit"
    by (auto simp: modifyOptions_def alloc_def split: sum.splits)
  from lit obtain f w ms wds where
    f: "convertOptional convertFrequencyStringToRRuleConstant frequency = Inr f" and
    w: "convertOptional convertUserWeekdayStringToRRuleConstant (wkst p) = Inr w" and
    ms: "convertOptional (mapE convertUserMonthStringToRRuleConstant) (bymonth p) = Inr ms" and
    wds: "convertOptional (mapE convertUserByWeekdayToRRuleConstant) (byweekday p) = Inr wds"
    by (auto simp: optionsLiteral_def split: sum.splits)
  from assms modifyOptions_result [where rrulestr = rrulestr and strict = strict and h = h, OF u parsed f w ms wds]
  have res: "h' = h @ [\<lparr>props = origOptions parsed, nonconfigurable = []\<rparr>,
               \<lparr>props = fold (\<lambda>key ob. deleteIfUndefined ob key)
                          (Object_keys (optionsObject f w ms wds p)) (optionsObject f w ms wds p),
                nonconfigurable = []\<rparr>,
               \<lparr>props = spread (origOptions parsed)
                          (fold (\<lambda>key ob. deleteIfUndefined ob key)
                             (Object_keys (optionsObject f w ms wds p))
                             (optionsObject f w ms wds p)),
                nonconfigurable = []\<rparr>]"
    "options = length h" "merged = length h + 2"
    by simp_all
  have "get_prop (props (h' ! merged)) k =
          (case get_prop (optionsObject f w ms wds p) k of
             Some v \<Rightarrow> Some v
           | None \<Rightarrow> get_prop (origOptions parsed) k)" for k
    by (simp add: res nth_append get_prop_overlay)
  with u parsed f w ms wds res show ?thesis
    by (auto simp: nth_append)
qed

text \<open>
  What \<open>ModifyRRule\<close> returns when the rule string parses and the supplied tokens
  convert: the escaped string of the rule that the library builds from the merged
  options. In the merged options every supplied parameter has its new value (the
  converted one for the frequency, the \<open>wkst\<close>, the \<open>bymonth\<close> and the \<open>byweekday\<close>),
  and every key that was not supplied, or is none of the sixteen, has the value parsed
  from the rule string.
\<close>

lemma ModifyRRule_builds_from_overlay:
  assumes "unescapeControlCodes rrule = Inr u" and "rrulestr u = Inr parsed"
    and "convertOptional convertFrequencyStringToRRuleConstant frequency = Inr f"
    and "convertOptional convertUserWeekdayStringToRRuleConstant (wkst p) = Inr w"
    and "convertOptional (mapE convertUserMonthStringToRRuleConstant) (bymonth p) = Inr ms"
    and "convertOptional (mapE convertUserByWeekdayToRRuleConstant) (byweekday p) = Inr wds"
  shows "\<exists>merged.
      ModifyRRule strict rrulestr render rrule frequency p =
        (case render merged of Inl e \<Rightarrow> Inl e | Inr str \<Rightarrow> escapeControlCodes str)
    \<and> get_prop merged ''freq'' =
        (case f of Some c \<Rightarrow> Some (VFrequency c)
         | None \<Rightarrow> get_prop (origOptions parsed) ''freq'')
    \<and> get_prop merged ''dtstart'' =
        (case dtstart p of Some d \<Rightarrow> Some (VDate d)
         | None \<Rightarrow> get_prop (origOptions parsed) ''dtstart'')
    \<and> get_prop merged ''interval'' =
        (case interval p of Some i \<Rightarrow> Some (VNumber i)
         | None \<Rightarrow> get_prop (origOptions parsed) ''interval'')
    \<and> get_prop merged ''wkst'' =
        (case w of Some d \<Rightarrow> Some (VWeekday d)
         | None \<Rightarrow> get_prop (origOptions parsed) ''wkst'')
    \<and> get_prop merged ''count'' =
        (case count p of Some c \<Rightarrow> Some (VNumber c)
         | None \<Rightarrow> get_prop (origOptions parsed) ''count'')
    \<and> get_prop merged ''until'' =
        (case until p of Some d \<Rightarrow> Some (VDate d)
         | None \<Rightarrow> get_prop (origOptions parsed) ''until'')
    \<and> get_prop merged ''tzid'' =
        (case timezone p of Some z \<Rightarrow> Some (VString z)
         | None \<Rightarrow> get_prop (origOptions parsed) ''tzid'')
    \<and> get_prop merged ''bysetpos'' =
        (case bysetpos p of Some ns \<Rightarrow> Some (VNumbers ns)
         | None \<Rightarrow> get_prop (origOptions parsed) ''bysetpos'')
    \<and> get_prop merged ''bymonth'' =
        (case ms of Some ns \<Rightarrow> Some (VMonths ns)
         | None \<Rightarrow> get_prop (origOptions parsed) ''bymonth'')
    \<and> get_prop merged ''bymonthday'' =
        (case bymonthday p of Some ns \<Rightarrow> Some (VNumbers ns)
         | None \<Rightarrow> get_prop (origOptions parsed) ''bymonthday'')
    \<and> get_prop merged ''byyearday'' =
        (case byyearday p of Some ns \<Rightarrow> Some (VNumbers ns)
         | None \<Rightarrow> get_prop (origOptions parsed) ''byyearday'')
    \<and> get_prop merged ''byweekno'' =
        (case byweekno p of Some ns \<Rightarrow> Some (VNumbers ns)
         | None \<Rightarrow> get_prop (origOptions parsed) ''byweekno'')
    \<and> get_prop merged ''byweekday'' =
        (case wds of Some ds \<Rightarrow> Some (VWeekdays ds)
         | None \<Rightarrow> get_prop (origOptions parsed) ''byweekday'')
    \<and> get_prop merged ''byhour'' =
        (case byhour p of Some ns \<Rightarrow> Some (VNumbers ns)
         | None \<Rightarrow> get_prop (origOptions parsed) ''byhour'')
    \<and> get_prop merged ''byminute'' =
        (case byminute p of Some ns \<Rightarrow> Some (VNumbers ns)
         | None \<Rightarrow> get_prop (origOptions parsed) ''byminute'')
    \<and> get_prop merged ''bysecond'' =
        (case bysecond p of Some ns \<Rightarrow> Some (VNumbers ns)
         | None \<Rightarrow> get_prop (origOptions parsed) ''bysecond'')
    \<and> (\<forall>k. k \<notin> {''freq'', ''dtstart'', ''interval'', ''wkst'', ''count'', ''until'', ''tzid'',
                 ''bysetpos'', ''bymonth'', ''bymonthday'', ''byyearday'', ''byweekno'',
                 ''byweekday'', ''byhour'', ''byminute'', ''bysecond''} \<longrightarrow>
            get_prop merged k = get_prop (origOptions parsed) k)"
proof -
  let ?lit = "optionsObject f w ms wds p"
  let ?merged = "spread (origOptions parsed)
                   (fold (\<lambda>key ob. deleteIfUndefined ob key) (Object_keys ?lit) ?lit)"
  have call: "ModifyRRule strict rrulestr render rrule frequency p =
        (case render ?merged of Inl e \<Rightarrow> Inl e | Inr str \<Rightarrow> escapeControlCodes str)"
    by (simp add: ModifyRRule_def
        modifyOptions_result [where rrulestr = rrulestr and h = "[]", OF assms])
  have overlay: "get_prop ?merged k =
      (case get_prop ?lit k of Some v \<Rightarrow> Some v | None \<Rightarrow> get_prop (origOptions parsed) k)" for k
    by (rule get_prop_overlay)
  have other: "get_prop ?lit k = None"
    if "k \<notin> {''freq'', ''dtstart'', ''interval'', ''wkst'', ''count'', ''until'', ''tzid'',
             ''bysetpos'', ''bymonth'', ''bymonthday'', ''byyearday'', ''byweekno'',
             ''byweekday'', ''byhour'', ''byminute'', ''bysecond''}" for k
    using that by (simp add: optionsObject_def get_prop_def)
  have lits:
    "get_prop ?lit ''freq'' = map_option VFrequency f"
    "get_prop ?lit ''dtstart'' = map_option VDate (dtstart p)"
    "get_prop ?lit ''interval'' = map_option VNumber (interval p)"
    "get_prop ?lit ''wkst'' = map_option VWeekday w"
    "get_prop ?lit ''count'' = map_option VNumber (count p)"
    "get_prop ?lit ''until'' = map_option VDate (until p)"
    "get_prop ?lit ''tzid'' = map_option VString (timezone p)"
    "get_prop ?lit ''bysetpos'' = map_option VNumbers (bysetpos p)"
    "get_prop ?lit ''bymonth'' = map_option VMonths ms"
    "get_prop ?lit ''bymonthday'' = map_option VNumbers (bymonthday p)"
    "get_prop ?lit ''byyearday'' = map_option VNumbers (byyearday p)"
    "get_prop ?lit ''byweekno'' = map_option VNumbers (byweekno p)"
    "get_prop ?lit ''byweekday'' = map_option VWeekdays wds"
    "get_prop ?lit ''byhour'' = map_option VNumbers (byhour p)"
    "get_prop ?lit ''byminute'' = map_option VNumbers (byminute p)"
    "get_prop ?lit ''bysecond'' = map_option VNumbers (bysecond p)"
    by (simp_all add: optionsObject_def get_prop_def)
  have flds:
    "get_prop ?merged ''freq'' =
        (case f of Some c \<Rightarrow> Some (VFrequency c)
         | None \<Rightarrow> get_prop (origOptions parsed) ''freq'')"
    "get_prop ?merged ''dtstart'' =
        (case dtstart p of Some d \<Rightarrow> Some (VDate d)
         | None \<Rightarrow> get_prop (origOptions parsed) ''dtstart'')"
    "get_prop ?merged ''interval'' =
        (case interval p of Some i \<Rightarrow> Some (VNumber i)
         | None \<Rightarrow> get_prop (origOptions parsed) ''interval'')"
    "get_prop ?merged ''wkst'' =
        (case w of Some d \<Rightarrow> Some (VWeekday d)
         | None \<Rightarrow> get_prop (origOptions parsed) ''wkst'')"
    "get_prop ?merged ''count'' =
        (case count p of Some c \<Rightarrow> Some (VNumber c)
         | None \<Rightarrow> get_prop (origOptions parsed) ''count'')"
    "get_prop ?merged ''until'' =
        (case until p of Some d \<Rightarrow> Some (VDate d)
         | None \<Rightarrow> get_prop (origOptions parsed) ''until'')"
    "get_prop ?merged ''tzid'' =
        (case timezone p of Some z \<Rightarrow> Some (VString z)
         | None \<Rightarrow> get_prop (origOptions parsed) ''tzid'')"
    "get_prop ?merged ''bysetpos'' =
        (case bysetpos p of Some ns \<Rightarrow> Some (VNumbers ns)
         | None \<Rightarrow> get_prop (origOptions parsed) ''bysetpos'')"
    "get_prop ?merged ''bymonth'' =
        (case ms of Some ns \<Rightarrow> Some (VMonths ns)
         | None \<Rightarrow> get_prop (origOptions parsed) ''bymonth'')"
    "get_prop ?merged ''bymonthday'' =
        (case bymonthday p of Some ns \<Rightarrow> Some (VNumbers ns)
         | None \<Rightarrow> get_prop (origOptions parsed) ''bymonthday'')"
    "get_prop ?merged ''byyearday'' =
        (case byyearday p of Some ns \<Rightarrow> Some (VNumbers ns)
         | None \<Rightarrow> get_prop (origOptions parsed) ''byyearday'')"
    "get_prop ?merged ''byweekno'' =
        (case byweekno p of Some ns \<Rightarrow> Some (VNumbers ns)
         | None \<Rightarrow> get_prop (origOptions parsed) ''byweekno'')"
    "get_prop ?merged ''byweekday'' =
        (case wds of Some ds \<Rightarrow> Some (VWeekdays ds)
         | None \<Rightarrow> get_prop (origOptions parsed) ''byweekday'')"
    "get_prop ?merged ''byhour'' =
        (case byhour p of Some ns \<Rightarrow> Some (VNumbers ns)
         | None \<Rightarrow> get_prop (origOptions parsed) ''byhour'')"
    "get_prop ?merged ''byminute'' =
        (case byminute p of Some ns \<Rightarrow> Some (VNumbers ns)
         | None \<Rightarrow> get_prop (origOptions parsed) ''byminute'')"
    "get_prop ?merged ''bysecond'' =
        (case bysecond p of Some ns \<Rightarrow> Some (VNumbers ns)
         | None \<Rightarrow> get_prop (origOptions parsed) ''bysecond'')"
    by (simp_all only: overlay lits) (simp_all split: option.splits)
  have rest: "\<forall>k. k \<notin> {''freq'', ''dtstart'', ''interval'', ''wkst'', ''count'', ''until'', ''tzid'',
                 ''bysetpos'', ''bymonth'', ''bymonthday'', ''byyearday'', ''byweekno'',
                 ''byweekday'', ''byhour'', ''byminute'', ''bysecond''} \<longrightarrow>
            get_prop ?merged k = get_prop (origOptions parsed) k"
    using other by (simp only: overlay) simp
  show ?thesis
    by (rule exI [of _ ?merged]) (intro conjI call flds rest)
qed

text \<open>
  A supplied \<open>wkst\<close> or \<open>bymonth\<close> token that its converter rejects ends the call: no
  rule is built, whatever the rule string holds.
\<close>

lemma modify_frequency_cases:
  "\<forall>e'. convertOptional convertFrequencyStringToRRuleConstant frequency = Inl e'
      \<longrightarrow> e' = CouldNotConvertError []"
  by (auto simp: convertOptional_def dest: conv_freq_err split: option.splits sum.splits)

lemma ModifyRRule_literal_err:
  assumes "unescapeControlCodes rrule = Inr u" and "rrulestr u = Inr parsed"
    and "optionsLiteral (convertOptional convertFrequencyStringToRRuleConstant frequency) p
           = Inl (CouldNotConvertError [])"
  shows "ModifyRRule strict rrulestr render rrule frequency p = Inl (UserVisibleError [])"
  using assms by (simp add: ModifyRRule_def modifyOptions_def alloc_def rethrow_def)

lemma ModifyRRule_bymonth_err:
  assumes "unescapeControlCodes rrule = Inr u" and "rrulestr u = Inr parsed"
    and "bymonth p = Some ms" and "s \<in> set ms"
    and "convertUserMonthStringToRRuleConstant s = Inl e"
  shows "ModifyRRule strict rrulestr render rrule frequency p = Inl (UserVisibleError [])"
  using assms(1,2) literal_bymonth_err [OF modify_frequency_cases assms(3-5)]
  by (rule ModifyRRule_literal_err)

text \<open>
  Claim C5. The claim holds of every call whose supplied tokens the converters accept
  (\<open>ModifyRRule_builds_from_overlay\<close> and \<open>modifyOptions_store\<close> above). It fails where
  a converter rejects a token that the specification takes as valid. For the rule string
  \<open>RRULE:FREQ=DAILY\<close>, parsed to the options \<open>{freq: DAILY}\<close>: with the \<open>bymonth\<close>
  \<open>["Mar"]\<close> supplied, and with the \<open>byweekday\<close> \<open>["-1FR"]\<close> supplied, \<open>ModifyRRule\<close>
  builds no rule but ends in a \<open>UserVisibleError\<close> with an empty message; with the
  \<open>bymonth\<close> \<open>["March"]\<close> supplied it returns the string of the rule built from the
  frequency of the rule string and the month 3. The library is stood for by a parser that
  knows the one rule string and a renderer that tells the two options objects apart.
\<close>

theorem ModifyRRule_rejects_valid_supplied_tokens:
  "ModifyRRule True
     (\<lambda>v. if v = String (js ''RRULE:FREQ=DAILY'')
          then Inr \<lparr>origOptions = [(''freq'', Some (VFrequency DAILY))], occurrences = []\<rparr>
          else Inl (js ''Invalid rule''))
     (\<lambda>ob. if get_prop ob ''freq'' = Some (VFrequency DAILY)
               \<and> get_prop ob ''bymonth'' = Some (VMonths [3])
            then Inr (js ''RRULE:FREQ=DAILY;BYMONTH=3'') else Inr (js ''RRULE:FREQ=DAILY''))
     (js ''RRULE:FREQ=DAILY'') None
     \<lparr>dtstart = None, interval = None, wkst = None, count = None, until = None,
      timezone = None, bysetpos = None, bymonth = Some [js ''Mar''], bymonthday = None,
      byyearday = None, byweekno = None, byweekday = None, byhour = None, byminute = None,
      bysecond = None\<rparr>
     = Inl (UserVisibleError [])
   \<and> ModifyRRule True
     (\<lambda>v. if v = String (js ''RRULE:FREQ=DAILY'')
          then Inr \<lparr>origOptions = [(''freq'', Some (VFrequency DAILY))], occurrences = []\<rparr>
          else Inl (js ''Invalid rule''))
     (\<lambda>ob. if get_prop ob ''freq'' = Some (VFrequency DAILY)
               \<and> get_prop ob ''bymonth'' = Some (VMonths [3])
            then Inr (js ''RRULE:FREQ=DAILY;BYMONTH=3'') else Inr (js ''RRULE:FREQ=DAILY''))
     (js ''RRULE:FREQ=DAILY'') None
     \<lparr>dtstart = None, interval = None, wkst = None, count = None, until = None,
      timezone = None, bysetpos = None, bymonth = None, bymonthday = None,
      byyearday = None, byweekno = None, byweekday = Some [js ''-1FR''], byhour = None,
      byminute = None, bysecond = None\<rparr>
     = Inl (UserVisibleError [])
   \<and> ModifyRRule True
     (\<lambda>v. if v = String (js ''RRULE:FREQ=DAILY'')
          then Inr \<lparr>origOptions = [(''freq'', Some (VFrequency DAILY))], occurrences = []\<rparr>
          else Inl (js ''Invalid rule''))
     (\<lambda>ob. if get_prop ob ''freq'' = Some (VFrequency DAILY)
               \<and> get_prop ob ''bymonth'' = Some (VMonths [3])
            then Inr (js ''RRULE:FREQ=DAILY;BYMONTH=3'') else Inr (js ''RRULE:FREQ=DAILY''))
     (js ''RRULE:FREQ=DAILY'') None
     \<lparr>dtstart = None, interval = None, wkst = None, count = None, until = None,
      timezone = None, bysetpos = None, bymonth = Some [js ''March''], bymonthday = None,
      byyearday = None, byweekno = None, byweekday = None, byhour = None, byminute = None,
      bysecond = None\<rparr>
     = Inr (js ''RRULE:FREQ=DAILY;BYMONTH=3'')"
proof -
  let ?rr = "\<lambda>v. if v = String (js ''RRULE:FREQ=DAILY'')
          then Inr \<lparr>origOptions = [(''freq'', Some (VFrequency DAILY))],
                    occurrences = ([] :: date list)\<rparr>
          else Inl (js ''Invalid rule'') :: jsstring + rule"
  let ?render = "\<lambda>ob :: (string, optval) obj. if get_prop ob ''freq'' = Some (VFrequency DAILY)
               \<and> get_prop ob ''bymonth'' = Some (VMonths [3])
            then Inr (js ''RRULE:FREQ=DAILY;BYMONTH=3'') else Inr (js ''RRULE:FREQ=DAILY'')
            :: error + jsstring"
  let ?p = "\<lparr>dtstart = None, interval = None, wkst = None, count = None, until = None,
      timezone = None, bysetpos = None, bymonth = None, bymonthday = None,
      byyearday = None, byweekno = None, byweekday = None, byhour = None, byminute = None,
      bysecond = None\<rparr>"
  have u: "unescapeControlCodes (js ''RRULE:FREQ=DAILY'') = Inr (String (js ''RRULE:FREQ=DAILY''))"
    by (simp add: eval_defs)
  have esc: "escapeControlCodes (js ''RRULE:FREQ=DAILY;BYMONTH=3'')
               = Inr (js ''RRULE:FREQ=DAILY;BYMONTH=3'')"
    by (simp add: eval_defs)
  have mar: "convertUserMonthStringToRRuleConstant (js ''Mar'') = Inl (CouldNotConvertError [])"
    by (simp add: eval_defs)
  have march: "convertUserMonthStringToRRuleConstant (js ''March'') = Inr 3"
    by (simp add: eval_defs)
  have fr: "convertUserByWeekdayToRRuleConstant (js ''-1FR'') = Inl (CouldNotConvertError [])"
    by (simp add: eval_defs)
  have a: "ModifyRRule True ?rr ?render (js ''RRULE:FREQ=DAILY'') None
          (?p\<lparr>bymonth := Some [js ''Mar'']\<rparr>) = Inl (UserVisibleError [])"
    by (simp add: ModifyRRule_def modifyOptions_def optionsLiteral_def convertOptional_def
        alloc_def rethrow_def u mar)
  have b: "ModifyRRule True ?rr ?render (js ''RRULE:FREQ=DAILY'') None
          (?p\<lparr>byweekday := Some [js ''-1FR'']\<rparr>) = Inl (UserVisibleError [])"
    by (simp add: ModifyRRule_def modifyOptions_def optionsLiteral_def convertOptional_def
        alloc_def rethrow_def u fr)
  have c: "ModifyRRule True ?rr ?render (js ''RRULE:FREQ=DAILY'') None
          (?p\<lparr>bymonth := Some [js ''March'']\<rparr>) = Inr (js ''RRULE:FREQ=DAILY;BYMONTH=3'')"
    by (simp add: ModifyRRule_def modifyOptions_def optionsLiteral_def optionsObject_def
        convertOptional_def rethrow_def object_defs u march esc)
  from a b c show ?thesis by simp
qed

section \<open>The occurrence queries\<close>

lemma collect_length:
  "(\<And>d i. it d i \<Longrightarrow> i < m) \<Longrightarrow> length (collect it ds acc) \<le> max (length acc) m"
proof (induction ds arbitrary: acc)
  case Nil
  then show ?case by simp
next
  case (Cons d ds)
  show ?case
  proof (cases "it d (length acc)")
    case True
    then have "length acc < m" by (rule Cons.prems)
    moreover have "length (collect it ds (acc @ [d])) \<le> max (length (acc @ [d])) m"
      by (rule Cons.IH) (rule Cons.prems)
    ultimately show ?thesis using True by simp
  next
    case False
    then show ?thesis by simp
  qed
qed

lemma limitingIterator_cap:
  "limitingIterator (Math_min l (Finite (real m))) d i \<Longrightarrow> i < m"
  by (cases l) (auto simp: limitingIterator_def Math_min_def split: if_splits)

text \<open>
  Whatever limit the caller asks for, \<open>All\<close> and \<open>Between\<close> return at most
  \<open>MAX_CONSUMED_RECURRENCES\<close> occurrences.
\<close>

lemma All_capped:
  "All rrulestr toISOString rrule limit = Inr xs \<Longrightarrow> length xs \<le> MAX_CONSUMED_RECURRENCES"
  using collect_length [of "limitingIterator (Math_min (case limit of None \<Rightarrow> Finite 100 | Some x \<Rightarrow> x)
      (Finite (real MAX_CONSUMED_RECURRENCES)))" MAX_CONSUMED_RECURRENCES _ "[]"]
    limitingIterator_cap
  by (auto simp: All_def rule_all_it_def Let_def split: sum.splits)

lemma Between_capped:
  "Between rrulestr toISOString rrule a b limit inc = Inr xs \<Longrightarrow>
   length xs \<le> MAX_CONSUMED_RECURRENCES"
  using collect_length [of "limitingIterator (Math_min (case limit of None \<Rightarrow> Finite 100 | Some x \<Rightarrow> x)
      (Finite (real MAX_CONSUMED_RECURRENCES)))" MAX_CONSUMED_RECURRENCES _ "[]"]
    limitingIterator_cap
  by (auto simp: Between_def rule_between_def Let_def split: sum.splits)

text \<open>
  Claim C3. No query is to materialise more than \<open>MAX_CONSUMED_RECURRENCES\<close> (1000)
  occurrences. \<open>All\<close> and \<open>Between\<close> cap the limit they pass on; \<open>First\<close> calls
  \<open>rule.all()\<close> without a predicate and without the cap: for a rule with 1001
  occurrences the array it evaluates has all 1001 of them.
\<close>

theorem First_materialises_uncapped:
  "First_all (\<lambda>v. Inr \<lparr>origOptions = [], occurrences = map int [0..<1001]\<rparr>)
      (js ''FREQ=SECONDLY;COUNT=1001'') = Inr (map int [0..<1001])
   \<and> MAX_CONSUMED_RECURRENCES < length (map int [0..<1001])"
  by (simp add: First_all_def parseRule_def rule_all_def MAX_CONSUMED_RECURRENCES_def eval_defs)

text \<open>
  Claim C6. For a rule string that is accepted (it unescapes and parses to a rule), no
  occurrence query ends in an error; when the rule has no occurrence, \<open>All\<close> returns the
  empty sequence and \<open>First\<close> the blank; when no occurrence lies in the range,
  \<open>Between\<close> returns the empty sequence; when no occurrence lies after, or before, the
  date, \<open>After\<close>, or \<open>Before\<close>, returns the blank.
\<close>

theorem absence_of_occurrences_is_no_error:
  assumes "parseRule rrulestr rrule = Inr r"
  shows "(\<exists>xs. All rrulestr toISOString rrule limit = Inr xs)
    \<and> (\<exists>xs. Between rrulestr toISOString rrule a b limit inc = Inr xs)
    \<and> (\<exists>x. First rrulestr toISOString rrule = Inr x)
    \<and> (\<exists>x. After rrulestr toISOString rrule d inc = Inr x)
    \<and> (\<exists>x. Before rrulestr toISOString rrule d' inc = Inr x)
    \<and> (occurrences r = [] \<longrightarrow>
          All rrulestr toISOString rrule limit = Inr []
          \<and> First rrulestr toISOString rrule = Inr BLANK)
    \<and> ((\<forall>t\<in>set (occurrences r). \<not> inRange (case inc of None \<Rightarrow> False | Some x \<Rightarrow> x) a b t)
         \<longrightarrow> Between rrulestr toISOString rrule a b limit inc = Inr [])
    \<and> ((\<forall>t\<in>set (occurrences r).
            \<not> (if (case inc of None \<Rightarrow> False | Some x \<Rightarrow> x) then d \<le> t else d < t))
         \<longrightarrow> After rrulestr toISOString rrule d inc = Inr BLANK)
    \<and> ((\<forall>t\<in>set (occurrences r).
            \<not> (if (case inc of None \<Rightarrow> False | Some x \<Rightarrow> x) then t \<le> d' else t < d'))
         \<longrightarrow> Before rrulestr toISOString rrule d' inc = Inr BLANK)"
  using assms
  by (simp add: All_def Between_def First_def First_all_def After_def Before_def Let_def
      rule_all_it_def rule_between_def rule_all_def rule_after_def rule_before_def
      filter_empty_conv)

theorem absence_of_occurrences_is_no_error_witness:
  "parseRule (\<lambda>v. Inr \<lparr>origOptions = [], occurrences = [10, 20]\<rparr>) (js ''FREQ=DAILY;COUNT=2'')
     = Inr \<lparr>origOptions = [], occurrences = [10, 20]\<rparr>
   \<and> Between (\<lambda>v. Inr \<lparr>origOptions = [], occurrences = [10, 20]\<rparr>) (\<lambda>t. js ''date'')
       (js ''FREQ=DAILY;COUNT=2'') 30 40 None None = Inr []
   \<and> After (\<lambda>v. Inr \<lparr>origOptions = [], occurrences = [10, 20]\<rparr>) (\<lambda>t. js ''date'')
       (js ''FREQ=DAILY;COUNT=2'') 20 None = Inr BLANK
   \<and> Before (\<lambda>v. Inr \<lparr>origOptions = [], occurrences = [10, 20]\<rparr>) (\<lambda>t. js ''date'')
       (js ''FREQ=DAILY;COUNT=2'') 10 None = Inr BLANK
   \<and> parseRule (\<lambda>v. Inr \<lparr>origOptions = [], occurrences = []\<rparr>) (js ''FREQ=DAILY;COUNT=0'')
     = Inr \<lparr>origOptions = [], occurrences = []\<rparr>
   \<and> All (\<lambda>v. Inr \<lparr>origOptions = [], occurrences = []\<rparr>) (\<lambda>t. js ''date'')
       (js ''FREQ=DAILY;COUNT=0'') None = Inr []
   \<and> First (\<lambda>v. Inr \<lparr>origOptions = [], occurrences = []\<rparr>) (\<lambda>t. js ''date'')
       (js ''FREQ=DAILY;COUNT=0'') = Inr BLANK"
proof -
  let ?r2 = "\<lparr>origOptions = [], occurrences = [10, 20]\<rparr>"
  let ?r0 = "\<lparr>origOptions = [], occurrences = []\<rparr>"
  have p2: "parseRule (\<lambda>v. Inr ?r2) (js ''FREQ=DAILY;COUNT=2'') = Inr ?r2"
    by (simp add: parseRule_def eval_defs)
  have p0: "parseRule (\<lambda>v. Inr ?r0) (js ''FREQ=DAILY;COUNT=0'') = Inr ?r0"
    by (simp add: parseRule_def eval_defs)
  from absence_of_occurrences_is_no_error
         [OF p2, of "\<lambda>t. js ''date''" None 30 40 None 20 10]
       absence_of_occurrences_is_no_error
         [OF p0, of "\<lambda>t. js ''date''" None 30 40 None 20 10]
       p2 p0
  show ?thesis by (simp add: inRange_def)
qed

end
